theory Spec2Isabelle
  imports Main "HOL-Library.Word"
begin

section \<open>The PvpMatchFHE contract\<close>

text \<open>
  A shallow embedding of the Solidity contract \<^verbatim>\<open>PvpMatchFHE\<close>
  (\<^verbatim>\<open>src/frontend/web/src/App.tsx\<close>, lines 641 to 875). Storage is a record, a
  mapping is a total function whose unset entries hold the zero value, an external
  function is a function from the call environment and the storage to either the
  error it reverts with or the new storage and the events it emits. A revert rolls the
  whole call back, so a failed call leaves the storage it started from.
\<close>

subsection \<open>Value types\<close>

type_synonym address = "160 word"
type_synonym uint256 = "256 word"
type_synonym uint32 = "32 word"
type_synonym bytes32 = "256 word"
type_synonym bytes = "8 word list"

text \<open>
  Modelled from the spec: the library types \<^verbatim>\<open>euint32\<close> and \<^verbatim>\<open>ebool\<close>, whose
  declarations are not in the repository, are opaque handles to values held by the
  encrypted-arithmetic engine. A handle is a 32-byte word; the zero word is what unset
  storage holds.
\<close>

type_synonym euint32 = "256 word"
type_synonym ebool = "256 word"

subsection \<open>Errors and events\<close>

text \<open>
  The twelve errors the contract declares, and the two reverts of the language itself:
  checked arithmetic (Solidity 0.8) panics on overflow, and \<^verbatim>\<open>abi.decode\<close> reverts
  on data that is too short or out of range. The contract gives two events the names of
  two errors (\<^verbatim>\<open>Paused\<close>, \<^verbatim>\<open>BatchClosed\<close>); here those events are
  \<open>PausedEvent\<close> and \<open>BatchClosedEvent\<close>.
\<close>

datatype error =
    NotOwner | NotProvider | Paused | CooldownActive | BatchNotOpen | BatchClosed
  | InvalidCooldown | ReplayDetected | StateMismatch | InvalidProof | NotInitialized
  | InvalidSubmission
  | ArithmeticPanic | AbiDecodeRevert

datatype event =
    ProviderAdded address
  | ProviderRemoved address
  | PausedEvent address
  | Unpaused address
  | CooldownSet uint256 uint256
  | BatchOpened uint256
  | BatchClosedEvent uint256
  | PlayerScoreSubmitted address uint256 bytes32
  | MatchmakingRequested uint256 uint256 bytes32
  | MatchmakingCompleted uint256 uint256 address address uint32 uint32

subsection \<open>Structs and storage\<close>

record DecryptionContext =
  batchId :: uint256
  stateHash :: bytes32
  processed :: bool

record PlayerSubmission =
  encryptedScore :: euint32
  submissionTimestamp :: uint256

record MatchRequest =
  player1 :: address
  player2 :: address
  encryptedScore1 :: euint32
  encryptedScore2 :: euint32
  requestTimestamp :: uint256

record storage =
  cooldownSeconds :: uint256
  owner :: address
  paused :: bool
  currentBatchId :: uint256
  batchOpen :: bool
  isProvider :: "address \<Rightarrow> bool"
  lastSubmissionTimestamp :: "address \<Rightarrow> uint256"
  lastRequestTimestamp :: "address \<Rightarrow> uint256"
  batchSubmissions :: "uint256 \<Rightarrow> address \<Rightarrow> PlayerSubmission"
  matchRequests :: "uint256 \<Rightarrow> MatchRequest"
  decryptionContexts :: "uint256 \<Rightarrow> DecryptionContext"
  fheInitialized :: bool

definition MIN_COOLDOWN_SECONDS :: uint256 where
  "MIN_COOLDOWN_SECONDS = 10"

text \<open>The zero values an unset mapping entry reads as.\<close>

definition zeroContext :: DecryptionContext where
  "zeroContext = \<lparr>batchId = 0, stateHash = 0, processed = False\<rparr>"

definition zeroSubmission :: PlayerSubmission where
  "zeroSubmission = \<lparr>encryptedScore = 0, submissionTimestamp = 0\<rparr>"

definition zeroRequest :: MatchRequest where
  "zeroRequest = \<lparr>player1 = 0, player2 = 0, encryptedScore1 = 0, encryptedScore2 = 0,
     requestTimestamp = 0\<rparr>"

subsection \<open>The environment of a call\<close>

text \<open>
  What a call reads besides the storage: \<^verbatim>\<open>msg.sender\<close>, \<^verbatim>\<open>block.timestamp\<close>,
  and the request id that \<^verbatim>\<open>FHE.requestDecryption\<close> returns when the call makes a
  decryption request (the oracle chooses it).
\<close>

record env =
  msg_sender :: address
  block_timestamp :: uint256
  oracle_requestId :: uint256

text \<open>
  The library \<^verbatim>\<open>FHE\<close> is not in the repository, and \<^verbatim>\<open>keccak256\<close> is the
  hash of the platform: the contract is modelled over any implementation of the
  operations it calls. \<^verbatim>\<open>keccak256\<close> takes the encoded data as 32-byte words,
  \<^verbatim>\<open>address_this\<close> is \<^verbatim>\<open>address(this)\<close>, fixed at deployment. Whether the
  library has been initialized (\<^verbatim>\<open>FHE.isInitialized()\<close>) is the storage field
  \<open>fheInitialized\<close>.
\<close>

record fhe =
  asEuint32 :: "uint32 \<Rightarrow> euint32"
  sub :: "euint32 \<Rightarrow> euint32 \<Rightarrow> euint32"
  ge :: "euint32 \<Rightarrow> euint32 \<Rightarrow> ebool"
  select :: "ebool \<Rightarrow> euint32 \<Rightarrow> euint32 \<Rightarrow> euint32"
  toBytes32 :: "euint32 \<Rightarrow> bytes32"
  toUint32 :: "euint32 \<Rightarrow> uint32"
  isZero :: "euint32 \<Rightarrow> bool"
  checkSignatures :: "uint256 \<Rightarrow> bytes \<Rightarrow> bytes \<Rightarrow> bool"
  keccak256 :: "bytes32 list \<Rightarrow> bytes32"
  address_this :: address

subsection \<open>Language-level operations\<close>

text \<open>Checked addition on \<^verbatim>\<open>uint256\<close>: a sum beyond \<open>2^256 - 1\<close> panics.\<close>

definition checked_add :: "uint256 \<Rightarrow> uint256 \<Rightarrow> error + uint256" where
  "checked_add a b =
     (if unat a + unat b < 2 ^ 256 then Inr (a + b) else Inl ArithmeticPanic)"

text \<open>
  \<^verbatim>\<open>abi.encode(cts, address(this))\<close> as a sequence of 32-byte words: the offset of
  the dynamic array (two head slots, \<open>0x40\<close>), the address padded to a word, then the
  array's length and its elements.
\<close>

definition abi_encode :: "bytes32 list \<Rightarrow> address \<Rightarrow> bytes32 list" where
  "abi_encode cts a = [64, ucast a, of_nat (length cts)] @ cts"

text \<open>
  \<^verbatim>\<open>abi.decode(cleartexts, (uint32))\<close>: the first 32 bytes read big-endian; the
  decoder reverts when there are fewer than 32 bytes or the value does not fit 32 bits.
\<close>

definition be_value :: "bytes \<Rightarrow> nat" where
  "be_value bs = foldl (\<lambda>acc b. acc * 256 + unat b) 0 bs"

definition abi_decode_uint32 :: "bytes \<Rightarrow> uint32 option" where
  "abi_decode_uint32 bs =
     (if length bs < 32 then None
      else if be_value (take 32 bs) < 2 ^ 32 then Some (of_nat (be_value (take 32 bs)))
      else None)"

subsection \<open>Modifiers\<close>

text \<open>Each modifier gives the error it reverts with, or \<open>None\<close> when the body may run.\<close>

definition onlyOwner :: "env \<Rightarrow> storage \<Rightarrow> error option" where
  "onlyOwner e s = (if msg_sender e \<noteq> owner s then Some NotOwner else None)"

definition onlyProvider :: "env \<Rightarrow> storage \<Rightarrow> error option" where
  "onlyProvider e s = (if isProvider s (msg_sender e) then None else Some NotProvider)"

definition whenNotPaused :: "storage \<Rightarrow> error option" where
  "whenNotPaused s = (if paused s then Some Paused else None)"

definition checkSubmissionCooldown :: "env \<Rightarrow> storage \<Rightarrow> address \<Rightarrow> error option" where
  "checkSubmissionCooldown e s player =
     (case checked_add (lastSubmissionTimestamp s player) (cooldownSeconds s) of
        Inl err \<Rightarrow> Some err
      | Inr limit \<Rightarrow> if block_timestamp e < limit then Some CooldownActive else None)"

definition checkRequestCooldown :: "env \<Rightarrow> storage \<Rightarrow> address \<Rightarrow> error option" where
  "checkRequestCooldown e s player =
     (case checked_add (lastRequestTimestamp s player) (cooldownSeconds s) of
        Inl err \<Rightarrow> Some err
      | Inr limit \<Rightarrow> if block_timestamp e < limit then Some CooldownActive else None)"

text \<open>Modifiers run in the order they are written; the first error wins.\<close>

fun guarded :: "error option list \<Rightarrow> (error + 'a) \<Rightarrow> error + 'a" where
  "guarded [] body = body"
| "guarded (None # gs) body = guarded gs body"
| "guarded (Some err # gs) body = Inl err"

subsection \<open>Internal functions\<close>

definition constructor :: "env \<Rightarrow> storage \<times> event list" where
  "constructor e =
     (\<lparr>cooldownSeconds = 30, owner = msg_sender e, paused = False, currentBatchId = 0,
       batchOpen = False, isProvider = (\<lambda>_. False)(msg_sender e := True),
       lastSubmissionTimestamp = (\<lambda>_. 0), lastRequestTimestamp = (\<lambda>_. 0),
       batchSubmissions = (\<lambda>_ _. zeroSubmission), matchRequests = (\<lambda>_. zeroRequest),
       decryptionContexts = (\<lambda>_. zeroContext), fheInitialized = False\<rparr>,
      [ProviderAdded (msg_sender e)])"

definition initIfNeeded :: "storage \<Rightarrow> storage" where
  "initIfNeeded s = (if \<not> fheInitialized s then s\<lparr>fheInitialized := True\<rparr> else s)"

definition hashCiphertexts :: "fhe \<Rightarrow> bytes32 list \<Rightarrow> bytes32" where
  "hashCiphertexts f cts = keccak256 f (abi_encode cts (address_this f))"

text \<open>
  The derived ciphertext of \<^verbatim>\<open>findMatch\<close> and \<^verbatim>\<open>myCallback\<close>:
  \<^verbatim>\<open>diff.ge(asEuint32(0)).select(diff, asEuint32(0).sub(diff))\<close> with
  \<^verbatim>\<open>diff = a.sub(b)\<close>. Both functions write the expression out; it is named once
  here.
\<close>

definition absDiff :: "fhe \<Rightarrow> euint32 \<Rightarrow> euint32 \<Rightarrow> euint32" where
  "absDiff f a b =
     select f (ge f (sub f a b) (asEuint32 f 0)) (sub f a b)
       (sub f (asEuint32 f 0) (sub f a b))"

subsection \<open>External functions\<close>

type_synonym result = "error + storage \<times> event list"

definition addProvider :: "env \<Rightarrow> storage \<Rightarrow> address \<Rightarrow> result" where
  "addProvider e s provider = guarded [onlyOwner e s]
     (if \<not> isProvider s provider
      then Inr (s\<lparr>isProvider := (isProvider s)(provider := True)\<rparr>, [ProviderAdded provider])
      else Inr (s, []))"

definition removeProvider :: "env \<Rightarrow> storage \<Rightarrow> address \<Rightarrow> result" where
  "removeProvider e s provider = guarded [onlyOwner e s]
     (if isProvider s provider
      then Inr (s\<lparr>isProvider := (isProvider s)(provider := False)\<rparr>,
                [ProviderRemoved provider])
      else Inr (s, []))"

definition pause :: "env \<Rightarrow> storage \<Rightarrow> result" where
  "pause e s = guarded [onlyOwner e s, whenNotPaused s]
     (Inr (s\<lparr>paused := True\<rparr>, [PausedEvent (msg_sender e)]))"

definition unpause :: "env \<Rightarrow> storage \<Rightarrow> result" where
  "unpause e s = guarded [onlyOwner e s]
     (Inr (s\<lparr>paused := False\<rparr>, [Unpaused (msg_sender e)]))"

definition setCooldownSeconds :: "env \<Rightarrow> storage \<Rightarrow> uint256 \<Rightarrow> result" where
  "setCooldownSeconds e s newCooldownSeconds = guarded [onlyOwner e s]
     (if newCooldownSeconds < MIN_COOLDOWN_SECONDS then Inl InvalidCooldown
      else Inr (s\<lparr>cooldownSeconds := newCooldownSeconds\<rparr>,
                [CooldownSet (cooldownSeconds s) newCooldownSeconds]))"

definition openBatch :: "env \<Rightarrow> storage \<Rightarrow> result" where
  "openBatch e s = guarded [onlyOwner e s, whenNotPaused s]
     (if batchOpen s then Inl BatchNotOpen
      else case checked_add (currentBatchId s) 1 of
        Inl err \<Rightarrow> Inl err
      | Inr next \<Rightarrow> Inr (s\<lparr>currentBatchId := next, batchOpen := True\<rparr>, [BatchOpened next]))"

definition closeBatch :: "env \<Rightarrow> storage \<Rightarrow> result" where
  "closeBatch e s = guarded [onlyOwner e s, whenNotPaused s]
     (if \<not> batchOpen s then Inl BatchClosed
      else Inr (s\<lparr>batchOpen := False\<rparr>, [BatchClosedEvent (currentBatchId s)]))"

definition submitPlayerScore :: "fhe \<Rightarrow> env \<Rightarrow> storage \<Rightarrow> address \<Rightarrow> uint32 \<Rightarrow> result" where
  "submitPlayerScore f e s player score =
     guarded [onlyProvider e s, whenNotPaused s, checkSubmissionCooldown e s player]
     (if \<not> batchOpen s then Inl BatchClosed
      else let s1 = initIfNeeded s;
               enc = asEuint32 f score
           in Inr (s1\<lparr>batchSubmissions := (batchSubmissions s1)
                        (currentBatchId s1 := (batchSubmissions s1 (currentBatchId s1))
                           (player := \<lparr>encryptedScore = enc,
                                        submissionTimestamp = block_timestamp e\<rparr>)),
                      lastSubmissionTimestamp :=
                        (lastSubmissionTimestamp s1)(player := block_timestamp e)\<rparr>,
                   [PlayerScoreSubmitted player (currentBatchId s1) (toBytes32 f enc)]))"

definition findMatch :: "fhe \<Rightarrow> env \<Rightarrow> storage \<Rightarrow> address \<Rightarrow> address \<Rightarrow> result" where
  "findMatch f e s p1 p2 =
     guarded [onlyProvider e s, whenNotPaused s, checkRequestCooldown e s p1]
     (if p1 = p2 then Inl InvalidSubmission
      else if isZero f (encryptedScore (batchSubmissions s (currentBatchId s) p1))
            \<or> isZero f (encryptedScore (batchSubmissions s (currentBatchId s) p2))
      then Inl InvalidSubmission
      else let sub1 = batchSubmissions s (currentBatchId s) p1;
               sub2 = batchSubmissions s (currentBatchId s) p2;
               cts = [toBytes32 f (absDiff f (encryptedScore sub1) (encryptedScore sub2))];
               hash = hashCiphertexts f cts;
               requestId = oracle_requestId e
           in Inr (s\<lparr>matchRequests := (matchRequests s)
                        (requestId := \<lparr>player1 = p1, player2 = p2,
                           encryptedScore1 = encryptedScore sub1,
                           encryptedScore2 = encryptedScore sub2,
                           requestTimestamp = block_timestamp e\<rparr>),
                     decryptionContexts := (decryptionContexts s)
                        (requestId := \<lparr>batchId = currentBatchId s, stateHash = hash,
                           processed = False\<rparr>),
                     lastRequestTimestamp :=
                        (lastRequestTimestamp s)(p1 := block_timestamp e)\<rparr>,
                   [MatchmakingRequested requestId (currentBatchId s) hash]))"

definition myCallback :: "fhe \<Rightarrow> env \<Rightarrow> storage \<Rightarrow> uint256 \<Rightarrow> bytes \<Rightarrow> bytes \<Rightarrow> result" where
  "myCallback f e s requestId cleartexts proof =
     (if processed (decryptionContexts s requestId) then Inl ReplayDetected
      else let cts = [toBytes32 f (absDiff f (encryptedScore1 (matchRequests s requestId))
                                             (encryptedScore2 (matchRequests s requestId)))];
               currentHash = hashCiphertexts f cts
           in if currentHash \<noteq> stateHash (decryptionContexts s requestId)
              then Inl StateMismatch
              else if \<not> checkSignatures f requestId cleartexts proof then Inl InvalidProof
              else case abi_decode_uint32 cleartexts of
                None \<Rightarrow> Inl AbiDecodeRevert
              | Some scoreDiff \<Rightarrow>
                  Inr (s\<lparr>decryptionContexts := (decryptionContexts s)
                          (requestId := (decryptionContexts s requestId)\<lparr>processed := True\<rparr>)\<rparr>,
                       [MatchmakingCompleted requestId
                          (batchId (decryptionContexts s requestId))
                          (player1 (matchRequests s requestId))
                          (player2 (matchRequests s requestId))
                          (toUint32 f (encryptedScore1 (matchRequests s requestId)))
                          (toUint32 f (encryptedScore2 (matchRequests s requestId)))]))"

subsection \<open>Transactions\<close>

datatype call =
    AddProvider address
  | RemoveProvider address
  | Pause
  | Unpause
  | SetCooldownSeconds uint256
  | OpenBatch
  | CloseBatch
  | SubmitPlayerScore address uint32
  | FindMatch address address
  | MyCallback uint256 bytes bytes

fun dispatch :: "fhe \<Rightarrow> env \<Rightarrow> storage \<Rightarrow> call \<Rightarrow> result" where
  "dispatch f e s (AddProvider a) = addProvider e s a"
| "dispatch f e s (RemoveProvider a) = removeProvider e s a"
| "dispatch f e s Pause = pause e s"
| "dispatch f e s Unpause = unpause e s"
| "dispatch f e s (SetCooldownSeconds n) = setCooldownSeconds e s n"
| "dispatch f e s OpenBatch = openBatch e s"
| "dispatch f e s CloseBatch = closeBatch e s"
| "dispatch f e s (SubmitPlayerScore a v) = submitPlayerScore f e s a v"
| "dispatch f e s (FindMatch a b) = findMatch f e s a b"
| "dispatch f e s (MyCallback r c p) = myCallback f e s r c p"

text \<open>
  A transaction: the storage afterwards, and the error or the events. A reverted call
  leaves the storage as it was.
\<close>

definition transact :: "fhe \<Rightarrow> env \<Rightarrow> call \<Rightarrow> storage \<Rightarrow> storage \<times> (error + event list)" where
  "transact f e c s =
     (case dispatch f e s c of Inl err \<Rightarrow> (s, Inl err) | Inr (s', evs) \<Rightarrow> (s', Inr evs))"

fun run :: "fhe \<Rightarrow> (env \<times> call) list \<Rightarrow> storage \<Rightarrow> storage" where
  "run f [] s = s"
| "run f ((e, c) # tx) s = run f tx (fst (transact f e c s))"

subsection \<open>Notions the properties are stated with\<close>

text \<open>
  The commitment of a pair of encrypted scores: the hash of the one-element list holding
  the exported handle of their derived ciphertext. \<^verbatim>\<open>findMatch\<close> stores it as
  \<^verbatim>\<open>stateHash\<close>; \<^verbatim>\<open>myCallback\<close> recomputes it as \<^verbatim>\<open>currentHash\<close>.
\<close>

definition commitment :: "fhe \<Rightarrow> euint32 \<Rightarrow> euint32 \<Rightarrow> bytes32" where
  "commitment f a b = hashCiphertexts f [toBytes32 f (absDiff f a b)]"

text \<open>
  \<open>requestsId r (e, c)\<close>: the call is a \<^verbatim>\<open>findMatch\<close> whose decryption request the
  oracle answers with the id \<open>r\<close>.
\<close>

fun requestsId :: "uint256 \<Rightarrow> env \<times> call \<Rightarrow> bool" where
  "requestsId r (e, FindMatch a b) = (oracle_requestId e = r)"
| "requestsId r (e, c) = False"

subsection \<open>A plaintext engine and a sample history\<close>

text \<open>
  One implementation of the engine interface, small enough to compute with: a handle is
  the cleartext with bit 32 set, so every handle is non-zero and lies outside
  \<^verbatim>\<open>uint32\<close>; \<^verbatim>\<open>toBytes32\<close> exports the handle, \<^verbatim>\<open>toUint32\<close> reads the
  cleartext back, a proof is valid when it is the single byte 1, and the hash is a
  polynomial of the words. It serves to run the contract on concrete inputs.
\<close>

definition plain_fhe :: fhe where
  "plain_fhe = \<lparr>asEuint32 = (\<lambda>v. 2 ^ 32 + ucast v),
     sub = (\<lambda>a b. 2 ^ 32 + ucast ((ucast a :: uint32) - ucast b)),
     ge = (\<lambda>a b. if (ucast b :: uint32) \<le> ucast a then 1 else 0),
     select = (\<lambda>c x y. if c \<noteq> 0 then x else y),
     toBytes32 = (\<lambda>h. h),
     toUint32 = ucast,
     isZero = (\<lambda>h. h = 0),
     checkSignatures = (\<lambda>r c p. p = [1]),
     keccak256 = (\<lambda>ws. foldl (\<lambda>acc w. 31 * acc + w) 7 ws),
     address_this = 0xC0DE\<rparr>"

text \<open>A call by \<open>a\<close> at time \<open>t\<close>; the oracle answers a request with the id 7.\<close>

definition at :: "address \<Rightarrow> uint256 \<Rightarrow> env" where
  "at a t = \<lparr>msg_sender = a, block_timestamp = t, oracle_requestId = 7\<rparr>"

text \<open>
  The history: address 1 deploys the contract, opens batch 1 and submits the scores
  1500 for player \<open>0xA\<close> and 1200 for player \<open>0xB\<close>; then it requests the match.
  \<open>pausedState\<close> pauses after the request, \<open>closedState\<close> closes the batch before it.
\<close>

definition deployed :: storage where
  "deployed = fst (constructor (at 1 1000))"

definition submitted :: storage where
  "submitted = run plain_fhe [(at 1 1000, OpenBatch), (at 1 1000, SubmitPlayerScore 0xA 1500),
     (at 1 1001, SubmitPlayerScore 0xB 1200)] deployed"

definition requested :: storage where
  "requested = run plain_fhe [(at 1 1002, FindMatch 0xA 0xB)] submitted"

definition pausedState :: storage where
  "pausedState = run plain_fhe [(at 1 1003, Pause)] requested"

definition closedState :: storage where
  "closedState = run plain_fhe [(at 1 1002, CloseBatch)] submitted"

text \<open>
  \<open>overwritten\<close> replaces the score of player \<open>0xA\<close> in the ledger while the request
  is pending. \<open>tampered\<close> substitutes other handles (those of the scores 1700 and 1200)
  for the two stored in the pending request. In \<open>maxCooldownState\<close> the owner has set
  the largest cooldown a \<^verbatim>\<open>uint256\<close> holds.
\<close>

definition overwritten :: storage where
  "overwritten = run plain_fhe [(at 1 1100, SubmitPlayerScore 0xA 9999)] requested"

definition tampered :: storage where
  "tampered = requested\<lparr>matchRequests := (matchRequests requested)
     (7 := (matchRequests requested 7)\<lparr>encryptedScore1 := 4294968996,
                                         encryptedScore2 := 4294968496\<rparr>)\<rparr>"

definition maxCooldownState :: storage where
  "maxCooldownState = run plain_fhe
     [(at 1 1001, SetCooldownSeconds
         115792089237316195423570985008687907853269984665640564039457584007913129639935)]
     submitted"

text \<open>\<^verbatim>\<open>abi.encode(uint32(300))\<close>: 32 bytes, big-endian.\<close>

definition clear300 :: bytes where
  "clear300 = [0,0,0,0,0,0,0,0,0,0,0,0,0,0,0,0,0,0,0,0,0,0,0,0,0,0,0,0,0,0,1,44]"

text \<open>
  \<open>finalized\<close> is the sample history after the callback for the request 7 has
  succeeded; in \<open>reissued\<close> a further match request for the same players has then been
  answered by the oracle with the id 7 again. \<open>substituted\<close> replaces the two handles
  stored in the pending request by those of the scores 1600 and 1300, which have the
  same difference.
\<close>

definition finalized :: storage where
  "finalized = fst (transact plain_fhe (at 5 2000) (MyCallback 7 clear300 [1]) requested)"

definition reissued :: storage where
  "reissued = fst (transact plain_fhe (at 1 2500) (FindMatch 0xA 0xB) finalized)"

definition substituted :: storage where
  "substituted = requested\<lparr>matchRequests := (matchRequests requested)
     (7 := (matchRequests requested 7)\<lparr>encryptedScore1 := 4294968896,
                                         encryptedScore2 := 4294968596\<rparr>)\<rparr>"

section \<open>Properties\<close>

lemmas op_defs = transact_def
  addProvider_def removeProvider_def pause_def unpause_def setCooldownSeconds_def
  openBatch_def closeBatch_def submitPlayerScore_def findMatch_def myCallback_def
  onlyOwner_def onlyProvider_def whenNotPaused_def checkSubmissionCooldown_def
  checkRequestCooldown_def hashCiphertexts_def absDiff_def abi_encode_def
  initIfNeeded_def

lemmas demo_defs = requested_def submitted_def
  deployed_def at_def plain_fhe_def clear300_def constructor_def checked_add_def
  abi_decode_uint32_def be_value_def zeroContext_def zeroRequest_def zeroSubmission_def
  MIN_COOLDOWN_SECONDS_def

subsection \<open>Shared lemmas\<close>

text \<open>A guarded body returns only when every modifier lets it run.\<close>

lemma guarded_Inr:
  "guarded gs body = Inr x \<Longrightarrow> body = Inr x"
  by (induction gs body rule: guarded.induct) simp_all

lemma guarded_Inr_iff:
  "guarded gs body = Inr x \<longleftrightarrow> (\<forall>g\<in>set gs. g = None) \<and> body = Inr x"
  by (induction gs body rule: guarded.induct) auto

lemma checked_add_Inr: "checked_add a b = Inr c \<Longrightarrow> unat c = unat a + unat b"
  by (auto simp add: checked_add_def unat_word_ariths split: if_splits)

lemma checked_add_no_overflow:
  "unat a + unat b < 2 ^ 256 \<Longrightarrow> checked_add a b = Inr (a + b)"
  by (simp add: checked_add_def)

lemma checked_add_overflow:
  "2 ^ 256 \<le> unat a + unat b \<Longrightarrow> checked_add a b = Inl ArithmeticPanic"
  by (simp add: checked_add_def)

text \<open>What a successful \<^verbatim>\<open>findMatch\<close> has written.\<close>

lemma findMatch_Inr:
  assumes "findMatch f e s p1 p2 = Inr (s', evs)"
  shows "matchRequests s' (oracle_requestId e)
      = \<lparr>player1 = p1, player2 = p2,
         encryptedScore1 = encryptedScore (batchSubmissions s (currentBatchId s) p1),
         encryptedScore2 = encryptedScore (batchSubmissions s (currentBatchId s) p2),
         requestTimestamp = block_timestamp e\<rparr>"
    and "decryptionContexts s' (oracle_requestId e)
      = \<lparr>batchId = currentBatchId s,
         stateHash = commitment f (encryptedScore (batchSubmissions s (currentBatchId s) p1))
                       (encryptedScore (batchSubmissions s (currentBatchId s) p2)),
         processed = False\<rparr>"
    and "lastRequestTimestamp s' p1 = block_timestamp e"
    and "batchSubmissions s' = batchSubmissions s"
  using assms
  by (auto simp add: findMatch_def commitment_def Let_def dest!: guarded_Inr split: if_splits)

text \<open>
  \<^verbatim>\<open>myCallback\<close> reads two storage entries, the decryption context and the match
  request of its request id, and nothing of the environment.
\<close>

lemma myCallback_reads:
  assumes "decryptionContexts s r = decryptionContexts st r"
    and "matchRequests s r = matchRequests st r"
  shows "snd (transact f e (MyCallback r c p) s) = snd (transact f eb (MyCallback r c p) st)"
  using assms by (simp add: transact_def myCallback_def Let_def split: option.splits)

lemma myCallback_mismatch:
  assumes "\<not> processed (decryptionContexts s r)"
    and "commitment f (encryptedScore1 (matchRequests s r)) (encryptedScore2 (matchRequests s r))
           \<noteq> stateHash (decryptionContexts s r)"
  shows "transact f e (MyCallback r c p) s = (s, Inl StateMismatch)"
  using assms by (simp add: transact_def myCallback_def commitment_def)

lemma myCallback_match:
  assumes "commitment f (encryptedScore1 (matchRequests s r)) (encryptedScore2 (matchRequests s r))
           = stateHash (decryptionContexts s r)"
  shows "myCallback f e s r c p \<noteq> Inl StateMismatch"
  using assms by (simp add: myCallback_def commitment_def Let_def split: option.splits)

text \<open>What a successful \<^verbatim>\<open>submitPlayerScore\<close> has written, and what it has left.\<close>

lemma submitPlayerScore_Inr:
  assumes "submitPlayerScore f e s p v = Inr (s', evs)"
  shows "lastSubmissionTimestamp s' p = block_timestamp e \<and> cooldownSeconds s' = cooldownSeconds s
    \<and> isProvider s' = isProvider s \<and> paused s' = paused s \<and> batchOpen s' \<and> \<not> paused s
    \<and> matchRequests s' = matchRequests s \<and> decryptionContexts s' = decryptionContexts s"
  using assms
  by (auto simp add: submitPlayerScore_def guarded_Inr_iff initIfNeeded_def whenNotPaused_def
      Let_def split: if_splits)

subsection \<open>The match-completed notification\<close>

text \<open>
  Claim C1. The notification emitted at the end of \<^verbatim>\<open>myCallback\<close> carries the
  request id, the batch id and the two players. Its last two fields are not the
  handles of the encrypted scores: they are the \<^verbatim>\<open>uint32\<close> values that
  \<^verbatim>\<open>toUint32\<close> reads from the two stored encrypted scores (the event declares
  them \<^verbatim>\<open>uint32 score1, uint32 score2\<close>), whereas a handle is the 32-byte word
  that \<^verbatim>\<open>toBytes32\<close> exports, as \<^verbatim>\<open>PlayerScoreSubmitted\<close> does. The decoded gap
  \<^verbatim>\<open>scoreDiff\<close> is not in the event. The theorem states what every finalizing
  call emits, for any engine.
\<close>

theorem C1_completed_event:
  assumes "snd (transact f e (MyCallback r c p) s) = Inr evs"
  shows "evs = [MatchmakingCompleted r (batchId (decryptionContexts s r))
            (player1 (matchRequests s r)) (player2 (matchRequests s r))
            (toUint32 f (encryptedScore1 (matchRequests s r)))
            (toUint32 f (encryptedScore2 (matchRequests s r)))]"
  using assms
  by (auto simp add: transact_def myCallback_def Let_def split: if_splits option.splits)

text \<open>
  In the sample history the scores 1500 and 1200 were submitted, their handles
  \<open>2^32 + 1500\<close> and \<open>2^32 + 1200\<close> were exported at submission and stored in the
  request, and the notification carries 1500 and 1200: with an engine whose
  \<^verbatim>\<open>toUint32\<close> reads the cleartext, the cleartext scores are what is emitted.
\<close>

theorem C1_completed_event_witness:
  "snd (transact plain_fhe (at 1 1000) (SubmitPlayerScore 0xA 1500)
          (run plain_fhe [(at 1 1000, OpenBatch)] deployed))
     = Inr [PlayerScoreSubmitted 0xA 1 4294968796] \<and>
   encryptedScore1 (matchRequests requested 7) = 4294968796 \<and>
   encryptedScore2 (matchRequests requested 7) = 4294968496 \<and>
   snd (transact plain_fhe (at 5 2000) (MyCallback 7 clear300 [1]) requested)
     = Inr [MatchmakingCompleted 7 1 0xA 0xB 1500 1200]"
proof -
  have cb: "snd (transact plain_fhe (at 5 2000) (MyCallback 7 clear300 [1]) requested)
     = Inr [MatchmakingCompleted 7 1 0xA 0xB
              (toUint32 plain_fhe (encryptedScore1 (matchRequests requested 7)))
              (toUint32 plain_fhe (encryptedScore2 (matchRequests requested 7)))]"
    by (simp add: op_defs demo_defs)
  have st: "encryptedScore1 (matchRequests requested 7) = 4294968796"
    "encryptedScore2 (matchRequests requested 7) = 4294968496"
    "batchId (decryptionContexts requested 7) = 1"
    "player1 (matchRequests requested 7) = 0xA" "player2 (matchRequests requested 7) = 0xB"
    "toUint32 plain_fhe 4294968796 = 1500" "toUint32 plain_fhe 4294968496 = 1200"
    by (simp_all add: op_defs demo_defs)
  have sub: "snd (transact plain_fhe (at 1 1000) (SubmitPlayerScore 0xA 1500)
          (run plain_fhe [(at 1 1000, OpenBatch)] deployed))
     = Inr [PlayerScoreSubmitted 0xA 1 4294968796]"
    by (simp add: op_defs demo_defs)
  show ?thesis using C1_completed_event [OF cb] cb st sub by simp
qed

subsection \<open>A callback for a request that was never registered\<close>

text \<open>
  Claim C2, as amended. The contract has no error for an unknown request and no
  lookup that could raise one: an unset mapping entry reads as the zero context and the
  zero request. For a request id with no stored context, \<^verbatim>\<open>myCallback\<close> recomputes
  the commitment from the zero handles, finds it different from the stored zero hash and
  fails with \<^verbatim>\<open>StateMismatch\<close>, leaving the storage unchanged, whenever that
  recomputed commitment is not the zero word.
\<close>

theorem C2_unregistered_request_rejected:
  assumes "decryptionContexts s r = zeroContext" and "matchRequests s r = zeroRequest"
    and "hashCiphertexts f [toBytes32 f (absDiff f 0 0)] \<noteq> 0"
  shows "transact f e (MyCallback r c p) s = (s, Inl StateMismatch)"
  using assms by (simp add: transact_def myCallback_def zeroContext_def zeroRequest_def)

theorem C2_unregistered_request_rejected_witness:
  "transact plain_fhe (at 5 2000) (MyCallback 8 clear300 [1]) deployed
     = (deployed, Inl StateMismatch)"
  by (rule C2_unregistered_request_rejected) (simp_all add: op_defs demo_defs)

text \<open>
  Counterexample to C2 as stated: after the sample history only the id 7 is registered;
  a callback for the id 8 fails, but with \<^verbatim>\<open>StateMismatch\<close>.
\<close>

theorem C2_counterexample:
  "decryptionContexts requested 8 = zeroContext \<and> matchRequests requested 8 = zeroRequest \<and>
   transact plain_fhe (at 5 2000) (MyCallback 8 clear300 [1]) requested
     = (requested, Inl StateMismatch)"
  by (simp add: op_defs demo_defs)

subsection \<open>The pause switch\<close>

lemma pause_free_calls:
  assumes "k = AddProvider a \<or> k = RemoveProvider a \<or> k = SetCooldownSeconds n
      \<or> k = MyCallback r c p"
  shows "snd (transact f e k (s\<lparr>paused := b\<rparr>)) = snd (transact f e k s) \<and>
    fst (transact f e k (s\<lparr>paused := b\<rparr>)) = (fst (transact f e k s))\<lparr>paused := b\<rparr>"
  using assms
  by (auto simp add: transact_def addProvider_def removeProvider_def setCooldownSeconds_def
      myCallback_def onlyOwner_def Let_def split: option.splits)

text \<open>
  Claim C3, as amended. The modifier \<^verbatim>\<open>whenNotPaused\<close> stands on five functions:
  \<^verbatim>\<open>pause\<close>, \<^verbatim>\<open>openBatch\<close>, \<^verbatim>\<open>closeBatch\<close>, \<^verbatim>\<open>submitPlayerScore\<close> and
  \<^verbatim>\<open>findMatch\<close>. While the contract is paused each of them fails and changes
  nothing: with \<^verbatim>\<open>Paused\<close> when the caller passes the role check that comes first,
  with \<^verbatim>\<open>NotOwner\<close> or \<^verbatim>\<open>NotProvider\<close> otherwise. The other functions carry no
  pause check. While paused, \<^verbatim>\<open>addProvider\<close>, \<^verbatim>\<open>removeProvider\<close>,
  \<^verbatim>\<open>setCooldownSeconds\<close> and \<^verbatim>\<open>unpause\<close> do for the owner what they always
  do, with the storage and the events given below, and refuse any other caller with
  \<^verbatim>\<open>NotOwner\<close>. For \<^verbatim>\<open>addProvider\<close>, \<^verbatim>\<open>removeProvider\<close>,
  \<^verbatim>\<open>setCooldownSeconds\<close> and \<^verbatim>\<open>myCallback\<close>, by any caller, the same call on
  the storage with the pause flag set to any other value gives the same outcome and
  the same storage but for that flag.
\<close>

theorem C3_pause_gate:
  assumes "paused s"
  shows "transact f e Pause s = (s, Inl (if msg_sender e = owner s then Paused else NotOwner)) \<and>
    transact f e OpenBatch s = (s, Inl (if msg_sender e = owner s then Paused else NotOwner)) \<and>
    transact f e CloseBatch s = (s, Inl (if msg_sender e = owner s then Paused else NotOwner)) \<and>
    transact f e (SubmitPlayerScore a v) s
      = (s, Inl (if isProvider s (msg_sender e) then Paused else NotProvider)) \<and>
    transact f e (FindMatch a b) s
      = (s, Inl (if isProvider s (msg_sender e) then Paused else NotProvider)) \<and>
    transact f e (AddProvider a) s
      = (if msg_sender e \<noteq> owner s then (s, Inl NotOwner)
         else if isProvider s a then (s, Inr [])
         else (s\<lparr>isProvider := (isProvider s)(a := True)\<rparr>, Inr [ProviderAdded a])) \<and>
    transact f e (RemoveProvider a) s
      = (if msg_sender e \<noteq> owner s then (s, Inl NotOwner)
         else if isProvider s a
         then (s\<lparr>isProvider := (isProvider s)(a := False)\<rparr>, Inr [ProviderRemoved a])
         else (s, Inr [])) \<and>
    transact f e (SetCooldownSeconds n) s
      = (if msg_sender e \<noteq> owner s then (s, Inl NotOwner)
         else if n < MIN_COOLDOWN_SECONDS then (s, Inl InvalidCooldown)
         else (s\<lparr>cooldownSeconds := n\<rparr>, Inr [CooldownSet (cooldownSeconds s) n])) \<and>
    transact f e Unpause s
      = (if msg_sender e \<noteq> owner s then (s, Inl NotOwner)
         else (s\<lparr>paused := False\<rparr>, Inr [Unpaused (msg_sender e)])) \<and>
    (k = AddProvider a \<or> k = RemoveProvider a \<or> k = SetCooldownSeconds n
        \<or> k = MyCallback r c p \<longrightarrow>
       snd (transact f e k (s\<lparr>paused := flag\<rparr>)) = snd (transact f e k s) \<and>
       fst (transact f e k (s\<lparr>paused := flag\<rparr>)) = (fst (transact f e k s))\<lparr>paused := flag\<rparr>)"
proof (intro conjI impI)
  show "transact f e Pause s = (s, Inl (if msg_sender e = owner s then Paused else NotOwner))"
    using assms by (simp add: transact_def pause_def onlyOwner_def whenNotPaused_def)
  show "transact f e OpenBatch s = (s, Inl (if msg_sender e = owner s then Paused else NotOwner))"
    using assms by (simp add: transact_def openBatch_def onlyOwner_def whenNotPaused_def)
  show "transact f e CloseBatch s = (s, Inl (if msg_sender e = owner s then Paused else NotOwner))"
    using assms by (simp add: transact_def closeBatch_def onlyOwner_def whenNotPaused_def)
  show "transact f e (SubmitPlayerScore a v) s
      = (s, Inl (if isProvider s (msg_sender e) then Paused else NotProvider))"
    using assms by (simp add: transact_def submitPlayerScore_def onlyProvider_def whenNotPaused_def)
  show "transact f e (FindMatch a b) s
      = (s, Inl (if isProvider s (msg_sender e) then Paused else NotProvider))"
    using assms by (simp add: transact_def findMatch_def onlyProvider_def whenNotPaused_def)
  show "transact f e (AddProvider a) s
      = (if msg_sender e \<noteq> owner s then (s, Inl NotOwner)
         else if isProvider s a then (s, Inr [])
         else (s\<lparr>isProvider := (isProvider s)(a := True)\<rparr>, Inr [ProviderAdded a]))"
    by (simp add: transact_def addProvider_def onlyOwner_def)
  show "transact f e (RemoveProvider a) s
      = (if msg_sender e \<noteq> owner s then (s, Inl NotOwner)
         else if isProvider s a
         then (s\<lparr>isProvider := (isProvider s)(a := False)\<rparr>, Inr [ProviderRemoved a])
         else (s, Inr []))"
    by (simp add: transact_def removeProvider_def onlyOwner_def)
  show "transact f e (SetCooldownSeconds n) s
      = (if msg_sender e \<noteq> owner s then (s, Inl NotOwner)
         else if n < MIN_COOLDOWN_SECONDS then (s, Inl InvalidCooldown)
         else (s\<lparr>cooldownSeconds := n\<rparr>, Inr [CooldownSet (cooldownSeconds s) n]))"
    by (simp add: transact_def setCooldownSeconds_def onlyOwner_def)
  show "transact f e Unpause s
      = (if msg_sender e \<noteq> owner s then (s, Inl NotOwner)
         else (s\<lparr>paused := False\<rparr>, Inr [Unpaused (msg_sender e)]))"
    by (simp add: transact_def unpause_def onlyOwner_def)
next
  assume k: "k = AddProvider a \<or> k = RemoveProvider a \<or> k = SetCooldownSeconds n
        \<or> k = MyCallback r c p"
  show "snd (transact f e k (s\<lparr>paused := flag\<rparr>)) = snd (transact f e k s)"
    "fst (transact f e k (s\<lparr>paused := flag\<rparr>)) = (fst (transact f e k s))\<lparr>paused := flag\<rparr>"
    using pause_free_calls [OF k] by simp_all
qed

theorem C3_pause_gate_witness:
  "paused pausedState \<and>
   transact plain_fhe (at 1 1004) OpenBatch pausedState = (pausedState, Inl Paused) \<and>
   transact plain_fhe (at 5 1004) CloseBatch pausedState = (pausedState, Inl NotOwner) \<and>
   transact plain_fhe (at 1 1040) (SubmitPlayerScore 0xA 9) pausedState = (pausedState, Inl Paused) \<and>
   transact plain_fhe (at 1 1040) (FindMatch 0xA 0xB) pausedState = (pausedState, Inl Paused) \<and>
   transact plain_fhe (at 1 1040) (SetCooldownSeconds 60) pausedState
     = (pausedState\<lparr>cooldownSeconds := 60\<rparr>, Inr [CooldownSet 30 60]) \<and>
   transact plain_fhe (at 1 1040) (RemoveProvider 1) pausedState
     = (pausedState\<lparr>isProvider := (isProvider pausedState)(1 := False)\<rparr>,
        Inr [ProviderRemoved 1]) \<and>
   snd (transact plain_fhe (at 1 1040) (RemoveProvider 1) (pausedState\<lparr>paused := False\<rparr>))
     = Inr [ProviderRemoved 1] \<and>
   fst (transact plain_fhe (at 1 1040) (RemoveProvider 1) (pausedState\<lparr>paused := False\<rparr>))
     = pausedState\<lparr>isProvider := (isProvider pausedState)(1 := False), paused := False\<rparr>"
proof -
  have p: "paused pausedState" by (simp add: pausedState_def op_defs demo_defs)
  have st: "owner pausedState = 1" "isProvider pausedState 1" "cooldownSeconds pausedState = 30"
    by (simp_all add: pausedState_def op_defs demo_defs)
  note a = C3_pause_gate [OF p, of plain_fhe "at 1 1004"]
  note b = C3_pause_gate [OF p, of plain_fhe "at 5 1004"]
  note c = C3_pause_gate [OF p, where f = plain_fhe and e = "at 1 1040" and a = "0xA"
      and v = 9 and b = "0xB" and n = 60]
  note d = C3_pause_gate [OF p, where f = plain_fhe and e = "at 1 1040" and a = 1
      and k = "RemoveProvider 1" and flag = False]
  have 1: "transact plain_fhe (at 1 1004) OpenBatch pausedState = (pausedState, Inl Paused)"
    using a [THEN conjunct2, THEN conjunct1] st by (simp add: at_def)
  have 2: "transact plain_fhe (at 5 1004) CloseBatch pausedState = (pausedState, Inl NotOwner)"
    using b [THEN conjunct2, THEN conjunct2, THEN conjunct1] st by (simp add: at_def)
  have 3: "transact plain_fhe (at 1 1040) (SubmitPlayerScore 0xA 9) pausedState = (pausedState, Inl Paused)"
    "transact plain_fhe (at 1 1040) (FindMatch 0xA 0xB) pausedState = (pausedState, Inl Paused)"
    "transact plain_fhe (at 1 1040) (SetCooldownSeconds 60) pausedState
     = (pausedState\<lparr>cooldownSeconds := 60\<rparr>, Inr [CooldownSet 30 60])"
    using c st by (simp_all add: at_def MIN_COOLDOWN_SECONDS_def)
  have 4: "transact plain_fhe (at 1 1040) (RemoveProvider 1) pausedState
     = (pausedState\<lparr>isProvider := (isProvider pausedState)(1 := False)\<rparr>,
        Inr [ProviderRemoved 1])"
    using d st by (simp add: at_def)
  have 5: "snd (transact plain_fhe (at 1 1040) (RemoveProvider 1) (pausedState\<lparr>paused := False\<rparr>))
     = Inr [ProviderRemoved 1]"
    "fst (transact plain_fhe (at 1 1040) (RemoveProvider 1) (pausedState\<lparr>paused := False\<rparr>))
     = pausedState\<lparr>isProvider := (isProvider pausedState)(1 := False), paused := False\<rparr>"
    using d 4 by simp_all
  show ?thesis using p 1 2 3 4 5 by simp
qed

text \<open>
  Counterexample to C3 as stated: in the paused sample state the owner adds a provider,
  which succeeds and changes the provider set, and the pending request is finalized.
\<close>

theorem C3_counterexample:
  "paused pausedState \<and> \<not> isProvider pausedState 0xB \<and>
   snd (transact plain_fhe (at 1 1004) (AddProvider 0xB) pausedState) = Inr [ProviderAdded 0xB] \<and>
   isProvider (fst (transact plain_fhe (at 1 1004) (AddProvider 0xB) pausedState)) 0xB \<and>
   snd (transact plain_fhe (at 5 2000) (MyCallback 7 clear300 [1]) pausedState)
     = Inr [MatchmakingCompleted 7 1 0xA 0xB 1500 1200]"
  by (simp add: op_defs pausedState_def demo_defs)

subsection \<open>Preconditions of a match request\<close>

text \<open>
  Claim C4, as amended. \<^verbatim>\<open>findMatch\<close> succeeds only for two distinct players who
  each have a non-empty submission under the current batch id. With equal players or a
  missing submission the call fails and changes nothing; the error is
  \<^verbatim>\<open>InvalidSubmission\<close> when the provider, pause and cooldown checks that come
  first let the body run. The function does not read the \<^verbatim>\<open>batchOpen\<close> flag: its
  outcome is the same whether the current batch is open or closed.
\<close>

theorem C4_findMatch_preconditions:
  "(findMatch f e s p1 p2 = Inr (s', evs) \<longrightarrow>
      p1 \<noteq> p2 \<and> \<not> isZero f (encryptedScore (batchSubmissions s (currentBatchId s) p1))
      \<and> \<not> isZero f (encryptedScore (batchSubmissions s (currentBatchId s) p2))) \<and>
   (p1 = p2 \<or> isZero f (encryptedScore (batchSubmissions s (currentBatchId s) p1))
      \<or> isZero f (encryptedScore (batchSubmissions s (currentBatchId s) p2)) \<longrightarrow>
      (\<exists>err. transact f e (FindMatch p1 p2) s = (s, Inl err)) \<and>
      (isProvider s (msg_sender e) \<and> \<not> paused s \<and> checkRequestCooldown e s p1 = None \<longrightarrow>
         findMatch f e s p1 p2 = Inl InvalidSubmission)) \<and>
   snd (transact f e (FindMatch p1 p2) (s\<lparr>batchOpen := b\<rparr>))
     = snd (transact f e (FindMatch p1 p2) s)"
proof (intro conjI impI)
  show "snd (transact f e (FindMatch p1 p2) (s\<lparr>batchOpen := b\<rparr>))
     = snd (transact f e (FindMatch p1 p2) s)"
    by (cases "checkRequestCooldown e s p1")
       (simp_all add: transact_def findMatch_def onlyProvider_def whenNotPaused_def
          checkRequestCooldown_def Let_def)
next
  assume "findMatch f e s p1 p2 = Inr (s', evs)"
  then have body: "p1 \<noteq> p2
      \<and> \<not> isZero f (encryptedScore (batchSubmissions s (currentBatchId s) p1))
      \<and> \<not> isZero f (encryptedScore (batchSubmissions s (currentBatchId s) p2))"
    by (auto simp add: findMatch_def dest!: guarded_Inr split: if_splits)
  show "p1 \<noteq> p2" using body by simp
  show "\<not> isZero f (encryptedScore (batchSubmissions s (currentBatchId s) p1))"
    using body by simp
  show "\<not> isZero f (encryptedScore (batchSubmissions s (currentBatchId s) p2))"
    using body by simp
next
  assume bad: "p1 = p2 \<or> isZero f (encryptedScore (batchSubmissions s (currentBatchId s) p1))
      \<or> isZero f (encryptedScore (batchSubmissions s (currentBatchId s) p2))"
  then show "\<exists>err. transact f e (FindMatch p1 p2) s = (s, Inl err)"
    by (cases "checkRequestCooldown e s p1")
       (auto simp add: transact_def findMatch_def onlyProvider_def whenNotPaused_def)
  assume "isProvider s (msg_sender e) \<and> \<not> paused s \<and> checkRequestCooldown e s p1 = None"
  then show "findMatch f e s p1 p2 = Inl InvalidSubmission"
    using bad by (auto simp add: findMatch_def onlyProvider_def whenNotPaused_def)
qed

theorem C4_findMatch_preconditions_witness:
  "transact plain_fhe (at 1 1040) (FindMatch 0xA 0xA) submitted = (submitted, Inl InvalidSubmission) \<and>
   transact plain_fhe (at 1 1040) (FindMatch 0xA 0xC) submitted = (submitted, Inl InvalidSubmission) \<and>
   snd (transact plain_fhe (at 1 1040) (FindMatch 0xA 0xB) (submitted\<lparr>batchOpen := False\<rparr>))
     = Inr [MatchmakingRequested 7 1 4350787312]"
proof -
  have g: "isProvider submitted (msg_sender (at 1 1040)) \<and> \<not> paused submitted \<and>
     checkRequestCooldown (at 1 1040) submitted 0xA = None"
    by (simp add: op_defs closedState_def demo_defs)
  have z: "isZero plain_fhe (encryptedScore (batchSubmissions submitted (currentBatchId submitted) 0xC))"
    by (simp add: op_defs closedState_def demo_defs)
  have r: "snd (transact plain_fhe (at 1 1040) (FindMatch 0xA 0xB) submitted)
     = Inr [MatchmakingRequested 7 1 4350787312]"
    by (simp add: op_defs closedState_def demo_defs)
  note a = C4_findMatch_preconditions [of plain_fhe "at 1 1040" submitted "0xA" "0xA" submitted "[]" False]
  note b = C4_findMatch_preconditions [of plain_fhe "at 1 1040" submitted "0xA" "0xC" submitted "[]" False]
  note c = C4_findMatch_preconditions [of plain_fhe "at 1 1040" submitted "0xA" "0xB" submitted "[]" False]
  have 1: "transact plain_fhe (at 1 1040) (FindMatch 0xA 0xA) submitted = (submitted, Inl InvalidSubmission)"
    using a g by (simp add: transact_def)
  have 2: "transact plain_fhe (at 1 1040) (FindMatch 0xA 0xC) submitted = (submitted, Inl InvalidSubmission)"
    using b g z by (simp add: transact_def)
  have 3: "snd (transact plain_fhe (at 1 1040) (FindMatch 0xA 0xB) (submitted\<lparr>batchOpen := False\<rparr>))
     = Inr [MatchmakingRequested 7 1 4350787312]"
    using c r by simp
  show ?thesis using 1 2 3 by simp
qed

text \<open>
  Counterexample to C4 as stated: after the batch of the sample history is closed, the
  match request for its two players succeeds and registers a pending request.
\<close>

theorem C4_counterexample:
  "\<not> batchOpen closedState \<and>
   snd (transact plain_fhe (at 1 1040) (FindMatch 0xA 0xB) closedState)
     = Inr [MatchmakingRequested 7 1 4350787312] \<and>
   stateHash (decryptionContexts closedState 7) = 0 \<and>
   stateHash (decryptionContexts
       (fst (transact plain_fhe (at 1 1040) (FindMatch 0xA 0xB) closedState)) 7) = 4350787312"
  by (simp add: op_defs closedState_def demo_defs)

subsection \<open>Finalization happens at most once\<close>

lemma processed_dispatch:
  assumes "processed (decryptionContexts s r)" and "\<not> requestsId r (e, c)"
    and "dispatch f e s c = Inr (s', evs)"
  shows "processed (decryptionContexts s' r)"
proof (cases c)
  case (FindMatch a b)
  then have "findMatch f e s a b = Inr (s', evs)" and "oracle_requestId e \<noteq> r"
    using assms(2,3) by simp_all
  then show ?thesis using assms(1)
    by (auto simp add: findMatch_def Let_def dest!: guarded_Inr split: if_splits)
next
  case (MyCallback q c' p')
  then have "myCallback f e s q c' p' = Inr (s', evs)" using assms(3) by simp
  then show ?thesis using assms(1)
    by (auto simp add: myCallback_def Let_def split: if_splits option.splits)
next
  case OpenBatch
  then show ?thesis using assms(1,3)
    by (auto simp add: openBatch_def dest!: guarded_Inr split: if_splits sum.splits)
next
  case (SubmitPlayerScore a v)
  then show ?thesis using assms(1,3) submitPlayerScore_Inr [of f e s a v s' evs] by simp
qed (use assms(1,3) in \<open>auto simp add: addProvider_def removeProvider_def pause_def unpause_def
      setCooldownSeconds_def closeBatch_def dest!: guarded_Inr split: if_splits\<close>)

lemma processed_transact:
  assumes "processed (decryptionContexts s r)" and "\<not> requestsId r (e, c)"
  shows "processed (decryptionContexts (fst (transact f e c s)) r)"
proof (cases "dispatch f e s c")
  case (Inl err)
  then show ?thesis using assms(1) by (simp add: transact_def)
next
  case (Inr x)
  then obtain s' evs where "dispatch f e s c = Inr (s', evs)" by (cases x) simp
  then show ?thesis using processed_dispatch [OF assms] by (simp add: transact_def)
qed

lemma processed_run:
  "processed (decryptionContexts s r) \<Longrightarrow> \<forall>x\<in>set tx. \<not> requestsId r x \<Longrightarrow>
   processed (decryptionContexts (run f tx s) r)"
proof (induction tx arbitrary: s)
  case Nil
  then show ?case by simp
next
  case (Cons x tx)
  obtain e c where x: "x = (e, c)" by (cases x)
  have "processed (decryptionContexts (fst (transact f e c s)) r)"
    using Cons.prems x by (intro processed_transact) simp_all
  then show ?case using Cons.IH Cons.prems(2) x by simp
qed

lemma replay_rejected:
  "processed (decryptionContexts s r) \<Longrightarrow>
   transact f e (MyCallback r c p) s = (s, Inl ReplayDetected)"
  by (simp add: transact_def myCallback_def)

lemma finalized_processed:
  assumes "snd (transact f e (MyCallback r c p) s) = Inr evs"
  shows "processed (decryptionContexts (fst (transact f e (MyCallback r c p) s)) r)"
  using assms
  by (auto simp add: transact_def myCallback_def Let_def split: if_splits option.splits)

text \<open>
  Claim C5, as amended. Once a call of \<^verbatim>\<open>myCallback\<close> for the request id \<open>r\<close> has
  finalized, \<open>processed\<close> is true for \<open>r\<close> (it was false before). It stays true
  through every later sequence of calls of any functions by any callers in which the
  oracle answers no \<^verbatim>\<open>findMatch\<close> with the id \<open>r\<close> again, and every
  \<^verbatim>\<open>myCallback\<close> for \<open>r\<close> after such a sequence fails with
  \<^verbatim>\<open>ReplayDetected\<close> and changes nothing. \<^verbatim>\<open>findMatch\<close> does not check the id
  it is given: one that is answered with \<open>r\<close> again stores a fresh context for \<open>r\<close>,
  with \<open>processed\<close> false.
\<close>

theorem C5_finalized_at_most_once:
  assumes "snd (transact f e0 (MyCallback r c0 p0) s0) = Inr evs"
    and "\<forall>x\<in>set tx. \<not> requestsId r x"
    and "s1 = run f tx (fst (transact f e0 (MyCallback r c0 p0) s0))"
  shows "\<not> processed (decryptionContexts s0 r) \<and> processed (decryptionContexts s1 r) \<and>
    transact f e (MyCallback r c p) s1 = (s1, Inl ReplayDetected) \<and>
    (findMatch f e s1 a b = Inr (sa, evsa) \<and> oracle_requestId e = r
       \<longrightarrow> \<not> processed (decryptionContexts sa r))"
proof -
  have "\<not> processed (decryptionContexts s0 r)"
    using assms(1) by (auto simp add: transact_def myCallback_def)
  moreover have "processed (decryptionContexts s1 r)"
    unfolding assms(3) using finalized_processed [OF assms(1)] assms(2) by (rule processed_run)
  moreover have "\<not> processed (decryptionContexts sa r)"
    if "findMatch f e s1 a b = Inr (sa, evsa) \<and> oracle_requestId e = r"
    using findMatch_Inr(2) [of f e s1 a b sa evsa] that by simp
  ultimately show ?thesis by (simp add: replay_rejected)
qed

theorem C5_finalized_at_most_once_witness:
  "snd (transact plain_fhe (at 5 2000) (MyCallback 7 clear300 [1]) requested)
      = Inr [MatchmakingCompleted 7 1 0xA 0xB 1500 1200] \<and>
   snd (transact plain_fhe (at 6 3000) (MyCallback 7 clear300 [1])
     (run plain_fhe [(at 1 2100, SubmitPlayerScore 0xA 1), (at 5 2200, MyCallback 7 [] []),
          (at 1 2300, CloseBatch), (at 1 2400, AddProvider 0xC),
          (\<lparr>msg_sender = 1, block_timestamp = 2500, oracle_requestId = 8\<rparr>,
           FindMatch 0xA 0xB)]
        (fst (transact plain_fhe (at 5 2000) (MyCallback 7 clear300 [1]) requested))))
      = Inl ReplayDetected"
proof -
  have a: "snd (transact plain_fhe (at 5 2000) (MyCallback 7 clear300 [1]) requested)
      = Inr [MatchmakingCompleted 7 1 0xA 0xB 1500 1200]"
    by (simp add: op_defs demo_defs)
  have b: "\<forall>x\<in>set [(at 1 2100, SubmitPlayerScore 0xA 1), (at 5 2200, MyCallback 7 [] []),
          (at 1 2300, CloseBatch), (at 1 2400, AddProvider 0xC),
          (\<lparr>msg_sender = 1, block_timestamp = 2500, oracle_requestId = 8\<rparr>,
           FindMatch 0xA 0xB)]. \<not> requestsId 7 x"
    by simp
  show ?thesis
    using a C5_finalized_at_most_once [OF a b refl, of "at 6 3000" clear300 "[1]",
        THEN conjunct2, THEN conjunct2, THEN conjunct1]
    by simp
qed

text \<open>
  Counterexample to C5 as stated: after the request 7 has been finalized, a match
  request that the oracle answers with the id 7 again succeeds and overwrites the
  context; \<open>processed\<close> is false again and a second callback for 7 finalizes.
\<close>

theorem C5_counterexample:
  "snd (transact plain_fhe (at 5 2000) (MyCallback 7 clear300 [1]) requested)
      = Inr [MatchmakingCompleted 7 1 0xA 0xB 1500 1200] \<and>
   processed (decryptionContexts finalized 7) \<and>
   snd (transact plain_fhe (at 1 2500) (FindMatch 0xA 0xB) finalized)
      = Inr [MatchmakingRequested 7 1 4350787312] \<and>
   \<not> processed (decryptionContexts reissued 7) \<and>
   snd (transact plain_fhe (at 6 3000) (MyCallback 7 clear300 [1]) reissued)
      = Inr [MatchmakingCompleted 7 1 0xA 0xB 1500 1200]"
  by (simp add: reissued_def finalized_def op_defs demo_defs)

subsection \<open>The commitment binds the callback to the request\<close>

lemma commitment_of_handle:
  "toBytes32 f (absDiff f a' b') = toBytes32 f (absDiff f a b)
   \<Longrightarrow> commitment f a' b' = commitment f a b"
  by (simp add: commitment_def)

lemma myCallback_mismatch_iff:
  assumes "\<not> processed (decryptionContexts s r)"
  shows "(transact f e (MyCallback r c p) s = (s, Inl StateMismatch))
    = (commitment f (encryptedScore1 (matchRequests s r)) (encryptedScore2 (matchRequests s r))
         \<noteq> stateHash (decryptionContexts s r))"
  using assms
  by (auto simp add: transact_def myCallback_def commitment_def Let_def split: option.splits)

text \<open>
  Claim C6, as amended. After a successful \<^verbatim>\<open>findMatch\<close> for scores with the
  handles \<open>a\<close> and \<open>b\<close>, the stored \<^verbatim>\<open>stateHash\<close> is the commitment of \<open>a\<close>
  and \<open>b\<close>, and the commitment recomputed from the stored request equals it. In any
  later storage that still holds that request and context, the callback does not fail
  with \<^verbatim>\<open>StateMismatch\<close> (stability). The commitment is the hash of the exported
  handle of the derived ciphertext alone (with the contract's address), not of the two
  score handles. If the two stored handles are replaced by \<open>a'\<close> and \<open>b'\<close>, the
  callback fails with \<^verbatim>\<open>StateMismatch\<close>, changing nothing, exactly when the
  commitment of \<open>a'\<close> and \<open>b'\<close> differs from the stored one; a replacement that
  leaves the exported derived handle as it was is not detected. For any request not
  yet processed, a recomputed commitment other than the stored one makes the callback
  fail with \<^verbatim>\<open>StateMismatch\<close>.
\<close>

theorem C6_commitment_binding:
  assumes "findMatch f e s p1 p2 = Inr (s', evs)"
    and "r = oracle_requestId e"
    and "a = encryptedScore (batchSubmissions s (currentBatchId s) p1)"
    and "b = encryptedScore (batchSubmissions s (currentBatchId s) p2)"
  shows "stateHash (decryptionContexts s' r) = commitment f a b \<and>
    commitment f (encryptedScore1 (matchRequests s' r)) (encryptedScore2 (matchRequests s' r))
      = stateHash (decryptionContexts s' r) \<and>
    (matchRequests st r = matchRequests s' r \<and> decryptionContexts st r = decryptionContexts s' r
       \<longrightarrow> myCallback f e' st r c p \<noteq> Inl StateMismatch) \<and>
    (matchRequests st r = (matchRequests s' r)\<lparr>encryptedScore1 := a', encryptedScore2 := b'\<rparr>
       \<and> decryptionContexts st r = decryptionContexts s' r
       \<longrightarrow> (transact f e' (MyCallback r c p) st = (st, Inl StateMismatch))
             = (commitment f a' b' \<noteq> commitment f a b)
           \<and> (toBytes32 f (absDiff f a' b') = toBytes32 f (absDiff f a b)
                \<longrightarrow> commitment f a' b' = commitment f a b)) \<and>
    (\<not> processed (decryptionContexts st q)
       \<and> commitment f (encryptedScore1 (matchRequests st q)) (encryptedScore2 (matchRequests st q))
           \<noteq> stateHash (decryptionContexts st q)
       \<longrightarrow> transact f e' (MyCallback q c p) st = (st, Inl StateMismatch))"
proof (intro conjI impI)
  note fm = findMatch_Inr [OF assms(1), folded assms(2,3,4)]
  show "stateHash (decryptionContexts s' r) = commitment f a b"
    using fm(2) by simp
  show "commitment f (encryptedScore1 (matchRequests s' r)) (encryptedScore2 (matchRequests s' r))
      = stateHash (decryptionContexts s' r)"
    using fm(1,2) by simp
  { assume "matchRequests st r = matchRequests s' r \<and> decryptionContexts st r = decryptionContexts s' r"
    then show "myCallback f e' st r c p \<noteq> Inl StateMismatch"
      using fm(1,2) by (intro myCallback_match) simp }
  { assume tm: "matchRequests st r = (matchRequests s' r)\<lparr>encryptedScore1 := a', encryptedScore2 := b'\<rparr>
       \<and> decryptionContexts st r = decryptionContexts s' r"
    then have "\<not> processed (decryptionContexts st r)" using fm(2) by simp
    then show "(transact f e' (MyCallback r c p) st = (st, Inl StateMismatch))
             = (commitment f a' b' \<noteq> commitment f a b)"
      using tm fm(2) by (simp add: myCallback_mismatch_iff) }
  { assume "toBytes32 f (absDiff f a' b') = toBytes32 f (absDiff f a b)"
    then show "commitment f a' b' = commitment f a b" by (rule commitment_of_handle) }
  { assume "\<not> processed (decryptionContexts st q)
       \<and> commitment f (encryptedScore1 (matchRequests st q)) (encryptedScore2 (matchRequests st q))
           \<noteq> stateHash (decryptionContexts st q)"
    then show "transact f e' (MyCallback q c p) st = (st, Inl StateMismatch)"
      by (intro myCallback_mismatch) simp_all }
qed

theorem C6_commitment_binding_witness:
  "stateHash (decryptionContexts requested 7) = 4350787312 \<and>
   commitment plain_fhe 4294968796 4294968496 = 4350787312 \<and>
   myCallback plain_fhe (at 5 2000) requested 7 clear300 [1] \<noteq> Inl StateMismatch \<and>
   commitment plain_fhe 4294968996 4294968496 \<noteq> commitment plain_fhe 4294968796 4294968496 \<and>
   transact plain_fhe (at 5 2000) (MyCallback 7 clear300 [1]) tampered = (tampered, Inl StateMismatch) \<and>
   commitment plain_fhe 4294968896 4294968596 = commitment plain_fhe 4294968796 4294968496 \<and>
   transact plain_fhe (at 5 2000) (MyCallback 7 clear300 [1]) substituted
     \<noteq> (substituted, Inl StateMismatch)"
proof -
  have fm: "findMatch plain_fhe (at 1 1002) submitted 0xA 0xB
      = Inr (requested, [MatchmakingRequested 7 1 4350787312])"
    by (simp add: op_defs demo_defs)
  have r: "7 = oracle_requestId (at 1 1002)" by (simp add: at_def)
  have a: "4294968796 = encryptedScore (batchSubmissions submitted (currentBatchId submitted) 0xA)"
    and b: "4294968496 = encryptedScore (batchSubmissions submitted (currentBatchId submitted) 0xB)"
    by (simp_all add: op_defs demo_defs)
  have t: "matchRequests tampered 7
      = (matchRequests requested 7)\<lparr>encryptedScore1 := 4294968996, encryptedScore2 := 4294968496\<rparr>
      \<and> decryptionContexts tampered 7 = decryptionContexts requested 7"
    by (simp add: tampered_def)
  have u: "matchRequests substituted 7
      = (matchRequests requested 7)\<lparr>encryptedScore1 := 4294968896, encryptedScore2 := 4294968596\<rparr>
      \<and> decryptionContexts substituted 7 = decryptionContexts requested 7"
    by (simp add: substituted_def)
  have c: "commitment plain_fhe 4294968796 4294968496 = 4350787312"
    "commitment plain_fhe 4294968996 4294968496 \<noteq> 4350787312"
    by (simp_all add: commitment_def op_defs demo_defs)
  have h: "toBytes32 plain_fhe (absDiff plain_fhe 4294968896 4294968596)
      = toBytes32 plain_fhe (absDiff plain_fhe 4294968796 4294968496)"
    by (simp add: op_defs demo_defs)
  note C = C6_commitment_binding [OF fm r a b, where e' = "at 5 2000" and c = clear300
      and p = "[1]"]
  have 1: "stateHash (decryptionContexts requested 7) = 4350787312"
    using C [THEN conjunct1] c by simp
  have 2: "myCallback plain_fhe (at 5 2000) requested 7 clear300 [1] \<noteq> Inl StateMismatch"
    using C [where st = requested, THEN conjunct2, THEN conjunct2, THEN conjunct1] by simp
  note T = C [where st = tampered and a' = 4294968996 and b' = 4294968496,
        THEN conjunct2, THEN conjunct2, THEN conjunct2, THEN conjunct1, rule_format, OF t]
  note U = C [where st = substituted and a' = 4294968896 and b' = 4294968596,
        THEN conjunct2, THEN conjunct2, THEN conjunct2, THEN conjunct1, rule_format, OF u]
  have 3: "transact plain_fhe (at 5 2000) (MyCallback 7 clear300 [1]) tampered
        = (tampered, Inl StateMismatch)"
    using T c by simp
  have 4: "commitment plain_fhe 4294968896 4294968596 = commitment plain_fhe 4294968796 4294968496"
    using U h by simp
  have 5: "transact plain_fhe (at 5 2000) (MyCallback 7 clear300 [1]) substituted
     \<noteq> (substituted, Inl StateMismatch)"
    using U 4 by simp
  show ?thesis using 1 2 3 4 5 c by simp
qed

text \<open>
  Counterexample to C6 as stated: both handles stored in the pending request are
  replaced (those of 1600 and 1300 for those of 1500 and 1200); the derived handle and
  so the commitment are the same, and the callback finalizes.
\<close>

theorem C6_counterexample:
  "encryptedScore1 (matchRequests requested 7) = 4294968796 \<and>
   encryptedScore2 (matchRequests requested 7) = 4294968496 \<and>
   encryptedScore1 (matchRequests substituted 7) = 4294968896 \<and>
   encryptedScore2 (matchRequests substituted 7) = 4294968596 \<and>
   stateHash (decryptionContexts substituted 7) = 4350787312 \<and>
   commitment plain_fhe 4294968896 4294968596 = 4350787312 \<and>
   snd (transact plain_fhe (at 5 2000) (MyCallback 7 clear300 [1]) substituted)
     = Inr [MatchmakingCompleted 7 1 0xA 0xB 1600 1300]"
  by (simp add: substituted_def commitment_def op_defs demo_defs)

subsection \<open>The batch registry\<close>

lemma openBatch_Inr:
  assumes "openBatch e s = Inr (s', evs)"
  shows "\<not> batchOpen s \<and> batchOpen s' \<and> unat (currentBatchId s') = unat (currentBatchId s) + 1
    \<and> evs = [BatchOpened (currentBatchId s')]"
proof -
  have b: "(if batchOpen s then Inl BatchNotOpen
      else case checked_add (currentBatchId s) 1 of
        Inl err \<Rightarrow> Inl err
      | Inr next \<Rightarrow> Inr (s\<lparr>currentBatchId := next, batchOpen := True\<rparr>, [BatchOpened next]))
      = Inr (s', evs)"
    using assms unfolding openBatch_def by (rule guarded_Inr)
  then have c: "\<not> batchOpen s" by (auto split: if_splits)
  then obtain n where n: "checked_add (currentBatchId s) 1 = Inr n"
    and s': "s' = s\<lparr>currentBatchId := n, batchOpen := True\<rparr>" "evs = [BatchOpened n]"
    using b by (auto split: sum.splits)
  show ?thesis using c s' checked_add_Inr [OF n] by simp
qed

lemma closeBatch_Inr:
  assumes "closeBatch e s = Inr (s', evs)"
  shows "batchOpen s \<and> \<not> batchOpen s' \<and> currentBatchId s' = currentBatchId s
    \<and> evs = [BatchClosedEvent (currentBatchId s)]"
proof -
  have "(if \<not> batchOpen s then Inl BatchClosed
      else Inr (s\<lparr>batchOpen := False\<rparr>, [BatchClosedEvent (currentBatchId s)])) = Inr (s', evs)"
    using assms unfolding closeBatch_def by (rule guarded_Inr)
  then show ?thesis by (auto split: if_splits)
qed

text \<open>No call lowers the batch id: only \<^verbatim>\<open>openBatch\<close> writes it.\<close>

lemma batchId_dispatch:
  assumes "dispatch f e s c = Inr (s', evs)"
  shows "unat (currentBatchId s) \<le> unat (currentBatchId s')"
proof (cases c)
  case OpenBatch
  then show ?thesis using assms openBatch_Inr [of e s s' evs] by simp
next
  case CloseBatch
  then show ?thesis using assms closeBatch_Inr [of e s s' evs] by simp
next
  case (FindMatch a b)
  then have "findMatch f e s a b = Inr (s', evs)" using assms by simp
  then show ?thesis
    by (auto simp add: findMatch_def Let_def dest!: guarded_Inr split: if_splits)
next
  case (MyCallback q c' p')
  then have "myCallback f e s q c' p' = Inr (s', evs)" using assms by simp
  then show ?thesis
    by (auto simp add: myCallback_def Let_def split: if_splits option.splits)
next
  case (SubmitPlayerScore a v)
  then show ?thesis using assms
    by (auto simp add: submitPlayerScore_def initIfNeeded_def Let_def dest!: guarded_Inr
        split: if_splits)
qed (use assms in \<open>auto simp add: addProvider_def removeProvider_def pause_def unpause_def
      setCooldownSeconds_def dest!: guarded_Inr split: if_splits\<close>)

lemma batchId_transact:
  "unat (currentBatchId s) \<le> unat (currentBatchId (fst (transact f e c s)))"
proof (cases "dispatch f e s c")
  case (Inl err)
  then show ?thesis by (simp add: transact_def)
next
  case (Inr x)
  then obtain s' evs where "dispatch f e s c = Inr (s', evs)" by (cases x) simp
  then show ?thesis using batchId_dispatch [of f e s c s' evs] by (simp add: transact_def)
qed

lemma batchId_run:
  "unat (currentBatchId s) \<le> unat (currentBatchId (run f tx s))"
proof (induction tx arbitrary: s)
  case Nil
  then show ?case by simp
next
  case (Cons x tx)
  obtain e c where x: "x = (e, c)" by (cases x)
  have "unat (currentBatchId s) \<le> unat (currentBatchId (fst (transact f e c s)))"
    by (rule batchId_transact)
  also have "\<dots> \<le> unat (currentBatchId (run f tx (fst (transact f e c s))))"
    by (rule Cons.IH)
  finally show ?case using x by simp
qed

text \<open>
  Claim C7. \<^verbatim>\<open>openBatch\<close> succeeds only from Closed, and then the batch is Open and
  the id is one more (the checked increment cannot wrap); \<^verbatim>\<open>closeBatch\<close> succeeds
  only from Open, and then the batch is Closed with the id unchanged. For the owner of
  a contract that is not paused, \<^verbatim>\<open>openBatch\<close> from Open fails with the error the
  contract names \<^verbatim>\<open>BatchNotOpen\<close> (the spec's BatchAlreadyOpen) and
  \<^verbatim>\<open>closeBatch\<close> from Closed with \<^verbatim>\<open>BatchClosed\<close> (the spec's
  BatchAlreadyClosed), both changing nothing, and from the right state each succeeds. No
  sequence of calls lowers the id, so the id a later \<^verbatim>\<open>openBatch\<close> assigns is
  greater than the id of any batch opened before: ids are not reused.
\<close>

theorem C7_batch_registry:
  "(openBatch e s = Inr (s', evs) \<longrightarrow>
      \<not> batchOpen s \<and> batchOpen s' \<and> unat (currentBatchId s') = unat (currentBatchId s) + 1) \<and>
   (closeBatch e s = Inr (s', evs) \<longrightarrow>
      batchOpen s \<and> \<not> batchOpen s' \<and> currentBatchId s' = currentBatchId s) \<and>
   (msg_sender e = owner s \<and> \<not> paused s \<longrightarrow>
      (batchOpen s \<longrightarrow> transact f e OpenBatch s = (s, Inl BatchNotOpen)) \<and>
      (\<not> batchOpen s \<longrightarrow> transact f e CloseBatch s = (s, Inl BatchClosed)) \<and>
      (\<not> batchOpen s \<and> unat (currentBatchId s) + 1 < 2 ^ 256 \<longrightarrow>
         openBatch e s = Inr (s\<lparr>currentBatchId := currentBatchId s + 1, batchOpen := True\<rparr>,
                              [BatchOpened (currentBatchId s + 1)])) \<and>
      (batchOpen s \<longrightarrow>
         closeBatch e s = Inr (s\<lparr>batchOpen := False\<rparr>, [BatchClosedEvent (currentBatchId s)]))) \<and>
   unat (currentBatchId s) \<le> unat (currentBatchId (run f tx s)) \<and>
   (openBatch e s = Inr (s', evs) \<and> openBatch eb (run f tx s') = Inr (sb, evb) \<longrightarrow>
      unat (currentBatchId s') < unat (currentBatchId sb))"
proof (intro conjI impI)
  show "unat (currentBatchId s) \<le> unat (currentBatchId (run f tx s))"
    by (rule batchId_run)
next
  assume "openBatch e s = Inr (s', evs)"
  then show "\<not> batchOpen s" "batchOpen s'"
    "unat (currentBatchId s') = unat (currentBatchId s) + 1"
    using openBatch_Inr [of e s s' evs] by simp_all
next
  assume "closeBatch e s = Inr (s', evs)"
  then show "batchOpen s" "\<not> batchOpen s'" "currentBatchId s' = currentBatchId s"
    using closeBatch_Inr [of e s s' evs] by simp_all
next
  assume "openBatch e s = Inr (s', evs) \<and> openBatch eb (run f tx s') = Inr (sb, evb)"
  then have "unat (currentBatchId sb) = unat (currentBatchId (run f tx s')) + 1"
    using openBatch_Inr [of eb "run f tx s'" sb evb] by simp
  then show "unat (currentBatchId s') < unat (currentBatchId sb)"
    using batchId_run [of s' f tx] by simp
next
  assume own: "msg_sender e = owner s \<and> \<not> paused s"
  { assume "batchOpen s"
    then show "transact f e OpenBatch s = (s, Inl BatchNotOpen)"
      using own by (simp add: transact_def openBatch_def onlyOwner_def whenNotPaused_def) }
  { assume "\<not> batchOpen s"
    then show "transact f e CloseBatch s = (s, Inl BatchClosed)"
      using own by (simp add: transact_def closeBatch_def onlyOwner_def whenNotPaused_def) }
  { assume "\<not> batchOpen s \<and> unat (currentBatchId s) + 1 < 2 ^ 256"
    then show "openBatch e s = Inr (s\<lparr>currentBatchId := currentBatchId s + 1, batchOpen := True\<rparr>,
                              [BatchOpened (currentBatchId s + 1)])"
      using own by (simp add: openBatch_def onlyOwner_def whenNotPaused_def checked_add_def) }
  { assume "batchOpen s"
    then show "closeBatch e s = Inr (s\<lparr>batchOpen := False\<rparr>, [BatchClosedEvent (currentBatchId s)])"
      using own by (simp add: closeBatch_def onlyOwner_def whenNotPaused_def) }
qed

theorem C7_batch_registry_witness:
  "transact plain_fhe (at 1 1002) OpenBatch submitted = (submitted, Inl BatchNotOpen) \<and>
   transact plain_fhe (at 1 1003) CloseBatch closedState = (closedState, Inl BatchClosed) \<and>
   closeBatch (at 1 1002) submitted = Inr (closedState, [BatchClosedEvent 1]) \<and>
   openBatch (at 1 1003) closedState
     = Inr (closedState\<lparr>currentBatchId := 2, batchOpen := True\<rparr>, [BatchOpened 2])"
proof -
  have a: "msg_sender (at 1 1002) = owner submitted \<and> \<not> paused submitted"
    "batchOpen submitted" "currentBatchId submitted = 1"
    by (simp_all add: op_defs closedState_def demo_defs)
  have b: "msg_sender (at 1 1003) = owner closedState \<and> \<not> paused closedState"
    "\<not> batchOpen closedState \<and> unat (currentBatchId closedState) + 1 < 2 ^ 256"
    "currentBatchId closedState = 1"
    by (simp_all add: op_defs closedState_def demo_defs)
  have c: "submitted\<lparr>batchOpen := False\<rparr> = closedState"
    using a by (simp add: closedState_def transact_def closeBatch_def onlyOwner_def
        whenNotPaused_def)
  note A = C7_batch_registry [where e = "at 1 1002" and s = submitted and f = plain_fhe,
      THEN conjunct2, THEN conjunct2, THEN conjunct1, rule_format, OF a(1)]
  note B = C7_batch_registry [where e = "at 1 1003" and s = closedState and f = plain_fhe,
      THEN conjunct2, THEN conjunct2, THEN conjunct1, rule_format, OF b(1)]
  show ?thesis using A B a b c by simp
qed

subsection \<open>A pending request does not follow the ledger\<close>

text \<open>
  Claim C8. A successful \<^verbatim>\<open>findMatch\<close> copies the two encrypted scores it read from
  the ledger into the match request. A later \<^verbatim>\<open>submitPlayerScore\<close>, for any player
  and by any caller, changes neither the match requests nor the decryption contexts,
  and the outcome of the callback for the pending request is the same after it as
  before it; indeed that outcome is the same for any contents of the ledger.
\<close>

theorem C8_pending_request_insulated:
  assumes "findMatch f e s p1 p2 = Inr (s', evs)" and "r = oracle_requestId e"
  shows "encryptedScore1 (matchRequests s' r) = encryptedScore (batchSubmissions s (currentBatchId s) p1) \<and>
    encryptedScore2 (matchRequests s' r) = encryptedScore (batchSubmissions s (currentBatchId s) p2) \<and>
    (submitPlayerScore f ea s' q v = Inr (sa, evsa) \<longrightarrow>
       matchRequests sa = matchRequests s' \<and> decryptionContexts sa = decryptionContexts s' \<and>
       snd (transact f eb (MyCallback r c p) sa) = snd (transact f eb (MyCallback r c p) s')) \<and>
    snd (transact f eb (MyCallback r c p) (s'\<lparr>batchSubmissions := ledger\<rparr>))
      = snd (transact f eb (MyCallback r c p) s')"
proof (intro conjI impI)
  show "encryptedScore1 (matchRequests s' r) = encryptedScore (batchSubmissions s (currentBatchId s) p1)"
    "encryptedScore2 (matchRequests s' r) = encryptedScore (batchSubmissions s (currentBatchId s) p2)"
    using findMatch_Inr(1) [OF assms(1)] assms(2) by simp_all
  show "snd (transact f eb (MyCallback r c p) (s'\<lparr>batchSubmissions := ledger\<rparr>))
      = snd (transact f eb (MyCallback r c p) s')"
    by (rule myCallback_reads) simp_all
next
  assume "submitPlayerScore f ea s' q v = Inr (sa, evsa)"
  then have fr: "matchRequests sa = matchRequests s' \<and> decryptionContexts sa = decryptionContexts s'"
    using submitPlayerScore_Inr [of f ea s' q v sa evsa] by simp
  then show "matchRequests sa = matchRequests s'" "decryptionContexts sa = decryptionContexts s'"
    by simp_all
  show "snd (transact f eb (MyCallback r c p) sa) = snd (transact f eb (MyCallback r c p) s')"
    using fr by (intro myCallback_reads) simp_all
qed

theorem C8_pending_request_insulated_witness:
  "encryptedScore (batchSubmissions requested 1 0xA) = 4294968796 \<and>
   encryptedScore (batchSubmissions overwritten 1 0xA) = 4294977295 \<and>
   encryptedScore1 (matchRequests overwritten 7) = 4294968796 \<and>
   snd (transact plain_fhe (at 5 2000) (MyCallback 7 clear300 [1]) overwritten)
     = Inr [MatchmakingCompleted 7 1 0xA 0xB 1500 1200]"
proof -
  have fm: "findMatch plain_fhe (at 1 1002) submitted 0xA 0xB
      = Inr (requested, [MatchmakingRequested 7 1 4350787312])"
    by (simp add: op_defs overwritten_def demo_defs)
  have r: "7 = oracle_requestId (at 1 1002)" by (simp add: at_def)
  have sp: "submitPlayerScore plain_fhe (at 1 1100) requested 0xA 9999
      = Inr (overwritten, [PlayerScoreSubmitted 0xA 1 4294977295])"
    by (simp add: op_defs overwritten_def demo_defs)
  have l: "encryptedScore (batchSubmissions requested 1 0xA) = 4294968796"
    "encryptedScore (batchSubmissions overwritten 1 0xA) = 4294977295"
    "encryptedScore (batchSubmissions submitted (currentBatchId submitted) 0xA) = 4294968796"
    by (simp_all add: op_defs overwritten_def demo_defs)
  have cb: "snd (transact plain_fhe (at 5 2000) (MyCallback 7 clear300 [1]) requested)
     = Inr [MatchmakingCompleted 7 1 0xA 0xB 1500 1200]"
    by (simp add: op_defs overwritten_def demo_defs)
  note C = C8_pending_request_insulated [OF fm r, where ea = "at 1 1100" and q = "0xA"
      and v = 9999 and sa = overwritten and evsa = "[PlayerScoreSubmitted 0xA 1 4294977295]"
      and eb = "at 5 2000" and c = clear300 and p = "[1]"]
  have "encryptedScore1 (matchRequests overwritten 7) = 4294968796"
    using C sp l(3) by simp
  moreover have "snd (transact plain_fhe (at 5 2000) (MyCallback 7 clear300 [1]) overwritten)
     = Inr [MatchmakingCompleted 7 1 0xA 0xB 1500 1200]"
    using C sp cb by simp
  ultimately show ?thesis using l by simp
qed

subsection \<open>The cooldown\<close>

lemma less_sum_unat:
  fixes t a b :: uint256
  assumes "unat a + unat b < 2 ^ 256"
  shows "t < a + b \<longleftrightarrow> unat t < unat a + unat b"
proof -
  have "unat (a + b) = unat a + unat b"
    using assms by (simp add: unat_add_lem [THEN iffD1])
  then show ?thesis by (simp add: word_less_nat_alt)
qed

lemma checkSubmissionCooldown_eq:
  assumes "unat (lastSubmissionTimestamp s p) + unat (cooldownSeconds s) < 2 ^ 256"
  shows "checkSubmissionCooldown e s p =
    (if unat (block_timestamp e) < unat (lastSubmissionTimestamp s p) + unat (cooldownSeconds s)
     then Some CooldownActive else None)"
  using assms
  by (simp add: checkSubmissionCooldown_def checked_add_no_overflow less_sum_unat)

lemma checkRequestCooldown_eq:
  assumes "unat (lastRequestTimestamp s p) + unat (cooldownSeconds s) < 2 ^ 256"
  shows "checkRequestCooldown e s p =
    (if unat (block_timestamp e) < unat (lastRequestTimestamp s p) + unat (cooldownSeconds s)
     then Some CooldownActive else None)"
  using assms
  by (simp add: checkRequestCooldown_def checked_add_no_overflow less_sum_unat)

lemma submit_cooldown_iff:
  assumes "isProvider s (msg_sender e)" and "\<not> paused s"
    and "unat (lastSubmissionTimestamp s p) + unat (cooldownSeconds s) < 2 ^ 256"
  shows "(transact f e (SubmitPlayerScore p v) s = (s, Inl CooldownActive))
    = (unat (block_timestamp e) < unat (lastSubmissionTimestamp s p) + unat (cooldownSeconds s))"
  using assms
  by (simp add: transact_def submitPlayerScore_def onlyProvider_def whenNotPaused_def
      checkSubmissionCooldown_eq Let_def)

lemma request_cooldown_iff:
  assumes "isProvider s (msg_sender e)" and "\<not> paused s"
    and "unat (lastRequestTimestamp s p) + unat (cooldownSeconds s) < 2 ^ 256"
  shows "(transact f e (FindMatch p q) s = (s, Inl CooldownActive))
    = (unat (block_timestamp e) < unat (lastRequestTimestamp s p) + unat (cooldownSeconds s))"
  using assms
  by (simp add: transact_def findMatch_def onlyProvider_def whenNotPaused_def
      checkRequestCooldown_eq Let_def)

lemma submit_succeeds:
  assumes "isProvider s (msg_sender e)" and "\<not> paused s" and "batchOpen s"
    and "unat (lastSubmissionTimestamp s p) + unat (cooldownSeconds s) \<le> unat (block_timestamp e)"
  shows "\<exists>s' evs. submitPlayerScore f e s p v = Inr (s', evs)"
proof -
  have "unat (block_timestamp e) < 2 ^ 256"
    using unsigned_less [of "block_timestamp e"] by simp
  then have "unat (lastSubmissionTimestamp s p) + unat (cooldownSeconds s) < 2 ^ 256"
    using assms(4) by simp
  then show ?thesis using assms
    by (simp add: submitPlayerScore_def onlyProvider_def whenNotPaused_def
        checkSubmissionCooldown_eq Let_def)
qed

text \<open>
  Claim C9, as amended. For a provider calling a contract that is not paused, and as
  long as \<open>last + cooldownSeconds\<close> fits in 256 bits: a submission for player \<open>p\<close>
  is rejected with \<^verbatim>\<open>CooldownActive\<close> exactly when
  \<open>now < lastSubmissionTimestamp[p] + cooldownSeconds\<close>, and a match request
  initiated for \<open>p\<close> exactly when \<open>now < lastRequestTimestamp[p] + cooldownSeconds\<close>;
  the rejection changes nothing. When the sum does not fit, the checked addition
  panics: the call is rejected all the same, with the arithmetic panic in place of
  \<^verbatim>\<open>CooldownActive\<close>. A successful action sets the player's timestamp to \<open>now\<close>,
  so a second submission for the same player less than \<open>cooldownSeconds\<close> after a
  successful one fails with \<^verbatim>\<open>CooldownActive\<close>, and one made once the cooldown has
  elapsed succeeds.
\<close>

theorem C9_cooldown:
  assumes "isProvider s (msg_sender e)" and "\<not> paused s"
  shows
   "(unat (lastSubmissionTimestamp s p) + unat (cooldownSeconds s) < 2 ^ 256 \<longrightarrow>
      (transact f e (SubmitPlayerScore p v) s = (s, Inl CooldownActive))
        = (unat (block_timestamp e)
             < unat (lastSubmissionTimestamp s p) + unat (cooldownSeconds s))) \<and>
    (unat (lastRequestTimestamp s p) + unat (cooldownSeconds s) < 2 ^ 256 \<longrightarrow>
      (transact f e (FindMatch p q) s = (s, Inl CooldownActive))
        = (unat (block_timestamp e)
             < unat (lastRequestTimestamp s p) + unat (cooldownSeconds s))) \<and>
    (2 ^ 256 \<le> unat (lastSubmissionTimestamp s p) + unat (cooldownSeconds s) \<longrightarrow>
      transact f e (SubmitPlayerScore p v) s = (s, Inl ArithmeticPanic)) \<and>
    (2 ^ 256 \<le> unat (lastRequestTimestamp s p) + unat (cooldownSeconds s) \<longrightarrow>
      transact f e (FindMatch p q) s = (s, Inl ArithmeticPanic)) \<and>
    (findMatch f e s p q = Inr (s', evs) \<longrightarrow> lastRequestTimestamp s' p = block_timestamp e) \<and>
    (submitPlayerScore f e s p v = Inr (s', evs) \<longrightarrow>
      lastSubmissionTimestamp s' p = block_timestamp e \<and>
      (isProvider s (msg_sender eb)
         \<and> unat (block_timestamp e) + unat (cooldownSeconds s) < 2 ^ 256 \<longrightarrow>
        (unat (block_timestamp eb) < unat (block_timestamp e) + unat (cooldownSeconds s) \<longrightarrow>
           transact f eb (SubmitPlayerScore p w) s' = (s', Inl CooldownActive)) \<and>
        (unat (block_timestamp e) + unat (cooldownSeconds s) \<le> unat (block_timestamp eb) \<longrightarrow>
           (\<exists>sb evb. submitPlayerScore f eb s' p w = Inr (sb, evb)
              \<and> lastSubmissionTimestamp sb p = block_timestamp eb))))"
proof (intro conjI impI)
  assume "unat (lastSubmissionTimestamp s p) + unat (cooldownSeconds s) < 2 ^ 256"
  then show "(transact f e (SubmitPlayerScore p v) s = (s, Inl CooldownActive))
        = (unat (block_timestamp e)
             < unat (lastSubmissionTimestamp s p) + unat (cooldownSeconds s))"
    using assms by (intro submit_cooldown_iff)
next
  assume "unat (lastRequestTimestamp s p) + unat (cooldownSeconds s) < 2 ^ 256"
  then show "(transact f e (FindMatch p q) s = (s, Inl CooldownActive))
        = (unat (block_timestamp e)
             < unat (lastRequestTimestamp s p) + unat (cooldownSeconds s))"
    using assms by (intro request_cooldown_iff)
next
  assume "2 ^ 256 \<le> unat (lastSubmissionTimestamp s p) + unat (cooldownSeconds s)"
  then show "transact f e (SubmitPlayerScore p v) s = (s, Inl ArithmeticPanic)"
    using assms
    by (simp add: transact_def submitPlayerScore_def onlyProvider_def whenNotPaused_def
        checkSubmissionCooldown_def checked_add_overflow)
next
  assume "2 ^ 256 \<le> unat (lastRequestTimestamp s p) + unat (cooldownSeconds s)"
  then show "transact f e (FindMatch p q) s = (s, Inl ArithmeticPanic)"
    using assms
    by (simp add: transact_def findMatch_def onlyProvider_def whenNotPaused_def
        checkRequestCooldown_def checked_add_overflow)
next
  assume "findMatch f e s p q = Inr (s', evs)"
  then show "lastRequestTimestamp s' p = block_timestamp e" by (rule findMatch_Inr(3))
next
  assume ok: "submitPlayerScore f e s p v = Inr (s', evs)"
  note s' = submitPlayerScore_Inr [OF ok]
  show "lastSubmissionTimestamp s' p = block_timestamp e" using s' by simp
  assume eb: "isProvider s (msg_sender eb)
         \<and> unat (block_timestamp e) + unat (cooldownSeconds s) < 2 ^ 256"
  { assume "unat (block_timestamp eb) < unat (block_timestamp e) + unat (cooldownSeconds s)"
    then show "transact f eb (SubmitPlayerScore p w) s' = (s', Inl CooldownActive)"
      using submit_cooldown_iff [of s' eb p f w] s' eb by simp }
  { assume "unat (block_timestamp e) + unat (cooldownSeconds s) \<le> unat (block_timestamp eb)"
    then obtain sb evb where sb: "submitPlayerScore f eb s' p w = Inr (sb, evb)"
      using submit_succeeds [of s' eb p f w] s' eb by auto
    then show "\<exists>sb evb. submitPlayerScore f eb s' p w = Inr (sb, evb)
              \<and> lastSubmissionTimestamp sb p = block_timestamp eb"
      using submitPlayerScore_Inr [OF sb] by simp }
qed

theorem C9_cooldown_witness:
  "transact plain_fhe (at 1 1029) (SubmitPlayerScore 0xA 1600) submitted
     = (submitted, Inl CooldownActive) \<and>
   transact plain_fhe (at 1 1031) (FindMatch 0xA 0xB) requested
     = (requested, Inl CooldownActive) \<and>
   lastSubmissionTimestamp overwritten 0xA = 1100 \<and>
   transact plain_fhe (at 1 1129) (SubmitPlayerScore 0xA 1600) overwritten
     = (overwritten, Inl CooldownActive) \<and>
   (\<exists>sb evb. submitPlayerScore plain_fhe (at 1 1130) overwritten 0xA 1600 = Inr (sb, evb)
      \<and> lastSubmissionTimestamp sb 0xA = 1130)"
proof -
  have a: "isProvider submitted (msg_sender (at 1 1029))" "\<not> paused submitted"
    "lastSubmissionTimestamp submitted 0xA = 1000" "cooldownSeconds submitted = 30"
    by (simp_all add: op_defs overwritten_def maxCooldownState_def demo_defs)
  have b: "isProvider requested (msg_sender (at 1 1031))" "\<not> paused requested"
    "lastRequestTimestamp requested 0xA = 1002" "cooldownSeconds requested = 30"
    by (simp_all add: op_defs overwritten_def maxCooldownState_def demo_defs)
  have c: "isProvider requested (msg_sender (at 1 1100))"
    "submitPlayerScore plain_fhe (at 1 1100) requested 0xA 9999
      = Inr (overwritten, [PlayerScoreSubmitted 0xA 1 4294977295])"
    by (simp_all add: op_defs overwritten_def maxCooldownState_def demo_defs)
  have 1: "transact plain_fhe (at 1 1029) (SubmitPlayerScore 0xA 1600) submitted
     = (submitted, Inl CooldownActive)"
    using C9_cooldown [OF a(1,2), where f = plain_fhe and p = "0xA" and v = 1600,
        THEN conjunct1] a(3,4)
    by (simp add: at_def)
  have 2: "transact plain_fhe (at 1 1031) (FindMatch 0xA 0xB) requested
     = (requested, Inl CooldownActive)"
    using C9_cooldown [OF b(1,2), where f = plain_fhe and p = "0xA" and q = "0xB",
        THEN conjunct2, THEN conjunct1] b(3,4)
    by (simp add: at_def)
  note C = C9_cooldown [OF c(1) b(2), where f = plain_fhe and p = "0xA" and v = 9999
      and s' = overwritten and evs = "[PlayerScoreSubmitted 0xA 1 4294977295]"
      and w = 1600,
      THEN conjunct2, THEN conjunct2, THEN conjunct2, THEN conjunct2, THEN conjunct2,
      rule_format, OF c(2)]
  have 3: "lastSubmissionTimestamp overwritten 0xA = 1100"
    using C [where eb = "at 1 1129", THEN conjunct1] by (simp add: at_def)
  have 4: "transact plain_fhe (at 1 1129) (SubmitPlayerScore 0xA 1600) overwritten
     = (overwritten, Inl CooldownActive)"
    using C [where eb = "at 1 1129", THEN conjunct2] b(1,4)
    by (simp add: at_def)
  have 5: "\<exists>sb evb. submitPlayerScore plain_fhe (at 1 1130) overwritten 0xA 1600 = Inr (sb, evb)
      \<and> lastSubmissionTimestamp sb 0xA = 1130"
    using C [where eb = "at 1 1130", THEN conjunct2] b(1,4)
    by (simp add: at_def)
  show ?thesis using 1 2 3 4 5 by simp
qed

text \<open>
  Counterexample to C9 as stated: the owner has set the cooldown to \<open>2^256 - 1\<close> after
  player \<open>0xA\<close> submitted at time 1000. At time 2000 a provider submits again:
  \<open>now < last + cooldownSeconds\<close> holds, the contract is not paused and the batch is
  open, and the call is rejected with the arithmetic panic, not \<^verbatim>\<open>CooldownActive\<close>.
\<close>

theorem C9_counterexample:
  "isProvider maxCooldownState 1 \<and> \<not> paused maxCooldownState \<and> batchOpen maxCooldownState \<and>
   unat (2000 :: uint256) < unat (lastSubmissionTimestamp maxCooldownState 0xA)
                              + unat (cooldownSeconds maxCooldownState) \<and>
   transact plain_fhe (at 1 2000) (SubmitPlayerScore 0xA 1600) maxCooldownState
     = (maxCooldownState, Inl ArithmeticPanic)"
  by (simp add: op_defs overwritten_def maxCooldownState_def demo_defs)

subsection \<open>The callback has no access control\<close>

text \<open>
  Claim C10. \<^verbatim>\<open>myCallback\<close> carries no modifier and reads neither \<^verbatim>\<open>msg.sender\<close>
  nor \<^verbatim>\<open>paused\<close>, \<^verbatim>\<open>owner\<close> or \<^verbatim>\<open>isProvider\<close>. For the same request id,
  cleartexts and proof its outcome (the events, or the error) is the same for any two
  callers at any two times, whatever the pause flag, the owner and the provider set
  are, and the storage it leaves differs only where the storage it started from
  did. The outcome is a function of the request's stored context and match request
  (from which the hash is recomputed), the proof verification and the decoding of the
  cleartexts: two storages that agree on that context and that request give the same
  outcome.
\<close>

theorem C10_callback_ignores_caller_and_pause:
  "snd (transact f e (MyCallback r c p) s)
     = snd (transact f eb (MyCallback r c p) (s\<lparr>paused := flag, owner := own, isProvider := ps\<rparr>)) \<and>
   fst (transact f eb (MyCallback r c p) (s\<lparr>paused := flag\<rparr>))
     = (fst (transact f e (MyCallback r c p) s))\<lparr>paused := flag\<rparr> \<and>
   (decryptionContexts s r = decryptionContexts st r \<and> matchRequests s r = matchRequests st r
      \<longrightarrow> snd (transact f e (MyCallback r c p) s) = snd (transact f eb (MyCallback r c p) st))"
proof (intro conjI impI)
  show "snd (transact f e (MyCallback r c p) s)
     = snd (transact f eb (MyCallback r c p) (s\<lparr>paused := flag, owner := own, isProvider := ps\<rparr>))"
    by (rule myCallback_reads) simp_all
  show "fst (transact f eb (MyCallback r c p) (s\<lparr>paused := flag\<rparr>))
     = (fst (transact f e (MyCallback r c p) s))\<lparr>paused := flag\<rparr>"
    by (simp add: transact_def myCallback_def Let_def split: option.splits)
next
  assume "decryptionContexts s r = decryptionContexts st r \<and> matchRequests s r = matchRequests st r"
  then show "snd (transact f e (MyCallback r c p) s) = snd (transact f eb (MyCallback r c p) st)"
    by (intro myCallback_reads) simp_all
qed

theorem C10_callback_ignores_caller_and_pause_witness:
  "snd (transact plain_fhe (at 1 2000) (MyCallback 7 clear300 [1]) requested)
     = Inr [MatchmakingCompleted 7 1 0xA 0xB 1500 1200] \<and>
   snd (transact plain_fhe (at 0xBAD 2000) (MyCallback 7 clear300 [1]) pausedState)
     = Inr [MatchmakingCompleted 7 1 0xA 0xB 1500 1200] \<and>
   snd (transact plain_fhe (at 0xBAD 2000) (MyCallback 7 clear300 [2]) pausedState)
     = Inl InvalidProof"
proof -
  have a: "snd (transact plain_fhe (at 1 2000) (MyCallback 7 clear300 [1]) requested)
     = Inr [MatchmakingCompleted 7 1 0xA 0xB 1500 1200]"
    "snd (transact plain_fhe (at 1 2000) (MyCallback 7 clear300 [2]) requested)
     = Inl InvalidProof"
    by (simp_all add: op_defs pausedState_def demo_defs)
  have b: "decryptionContexts requested 7 = decryptionContexts pausedState 7 \<and>
     matchRequests requested 7 = matchRequests pausedState 7"
    by (simp add: op_defs pausedState_def demo_defs)
  note C = C10_callback_ignores_caller_and_pause [where f = plain_fhe and e = "at 1 2000"
      and eb = "at 0xBAD 2000" and r = 7 and c = clear300 and s = requested
      and st = pausedState, THEN conjunct2, THEN conjunct2, rule_format, OF b]
  show ?thesis using a C [of "[1]"] C [of "[2]"] by simp
qed

end
